theory Spec2Isabelle
  imports Main "HOL-Library.Multiset"
begin

section \<open>Text helpers used by the views\<close>

text \<open>
  Strings are lists of characters. The character classes below are those of Python's
  \<^verbatim>\<open>str\<close> methods on ASCII text; a character above 127 belongs to none of them and is
  left alone by \<open>upper\<close>.
\<close>

definition isspace :: "char \<Rightarrow> bool" where
  "isspace c = (let n = (of_char c :: nat) in (9 \<le> n \<and> n \<le> 13) \<or> (28 \<le> n \<and> n \<le> 32))"

definition isalpha :: "char \<Rightarrow> bool" where
  "isalpha c = (let n = (of_char c :: nat) in (65 \<le> n \<and> n \<le> 90) \<or> (97 \<le> n \<and> n \<le> 122))"

definition isdigit :: "char \<Rightarrow> bool" where
  "isdigit c = (let n = (of_char c :: nat) in 48 \<le> n \<and> n \<le> 57)"

definition isalnum :: "char \<Rightarrow> bool" where
  "isalnum c = (isalpha c \<or> isdigit c)"

definition upper_char :: "char \<Rightarrow> char" where
  "upper_char c = (let n = (of_char c :: nat) in if 97 \<le> n \<and> n \<le> 122 then char_of (n - 32) else c)"

definition lower_char :: "char \<Rightarrow> char" where
  "lower_char c = (let n = (of_char c :: nat) in if 65 \<le> n \<and> n \<le> 90 then char_of (n + 32) else c)"

definition upper :: "string \<Rightarrow> string" where
  "upper s = map upper_char s"

definition lower :: "string \<Rightarrow> string" where
  "lower s = map lower_char s"

definition strip :: "string \<Rightarrow> string" where
  "strip s = rev (dropWhile isspace (rev (dropWhile isspace s)))"

text \<open>Python's \<^verbatim>\<open>x in s\<close> on strings: \<open>x\<close> occurs in \<open>s\<close> as a contiguous run.\<close>

fun contains :: "string \<Rightarrow> string \<Rightarrow> bool" where
  "contains [] x = (x = [])"
| "contains (c # cs) x = (take (length x) (c # cs) = x \<or> contains cs x)"

text \<open>The ORM lookups \<^verbatim>\<open>name__iexact\<close> and \<^verbatim>\<open>name__icontains\<close>: comparison after case folding.\<close>

definition iexact :: "string \<Rightarrow> string \<Rightarrow> bool" where
  "iexact field_value x = (upper field_value = upper x)"

definition icontains :: "string \<Rightarrow> string \<Rightarrow> bool" where
  "icontains field_value x = contains (upper field_value) (upper x)"


section \<open>Dates and times\<close>

text \<open>
  A \<^verbatim>\<open>datetime.time\<close> is its four fields, compared as Python compares them: as the tuple
  (hour, minute, second, microsecond). A \<^verbatim>\<open>datetime.date\<close> is its day number (the
  proleptic ordinal), so that adding \<^verbatim>\<open>timedelta(days=n)\<close> is adding \<open>n\<close>; the upper end of
  Python's calendar (year 9999) is not part of the model.
\<close>

record time =
  hour :: nat
  minute :: nat
  second :: nat
  microsecond :: nat

type_synonym date = int

record datetime =
  dt_date :: date
  dt_time :: time

definition mk_time :: "nat \<Rightarrow> nat \<Rightarrow> time" where
  "mk_time h m = \<lparr>hour = h, minute = m, second = 0, microsecond = 0\<rparr>"

definition time_le :: "time \<Rightarrow> time \<Rightarrow> bool" where
  "time_le a b =
     (hour a < hour b \<or> (hour a = hour b \<and>
       (minute a < minute b \<or> (minute a = minute b \<and>
         (second a < second b \<or> (second a = second b \<and> microsecond a \<le> microsecond b))))))"

definition time_lt :: "time \<Rightarrow> time \<Rightarrow> bool" where
  "time_lt a b =
     (hour a < hour b \<or> (hour a = hour b \<and>
       (minute a < minute b \<or> (minute a = minute b \<and>
         (second a < second b \<or> (second a = second b \<and> microsecond a < microsecond b))))))"

text \<open>The fields of a value that \<^verbatim>\<open>datetime.time\<close> can hold, and its offset from midnight.\<close>

definition valid_time :: "time \<Rightarrow> bool" where
  "valid_time t = (hour t < 24 \<and> minute t < 60 \<and> second t < 60 \<and> microsecond t < 1000000)"

definition micro_of_day :: "time \<Rightarrow> nat" where
  "micro_of_day t = ((hour t * 60 + minute t) * 60 + second t) * 1000000 + microsecond t"

text \<open>The time of day lies between \<open>h1\<close> o'clock and \<open>h2\<close> o'clock, both ends included.\<close>

definition in_clock_range :: "nat \<Rightarrow> nat \<Rightarrow> time \<Rightarrow> bool" where
  "in_clock_range h1 h2 t =
     (h1 * 3600000000 \<le> micro_of_day t \<and> micro_of_day t \<le> h2 * 3600000000)"


section \<open>Data model (models.py)\<close>

text \<open>
  One record per model class; a foreign key is the primary key of the row it points to.
  The automatic timestamps (\<^verbatim>\<open>created_at\<close>, \<^verbatim>\<open>updated_at\<close>) and the product description
  are left out: no view reads them in a decision. Quantities are Python integers.
\<close>

record product =
  p_id :: nat
  p_name :: string

record stock_balance =
  sb_id :: nat
  sb_product :: nat
  sb_quantity :: int

record delivery_slot =
  ds_id :: nat
  ds_name :: string

record preorder =
  po_id :: nat
  po_user :: nat
  po_product :: nat
  po_slot :: nat
  po_quantity :: int
  po_delivery_date :: date
  po_delivery_address :: string
  po_is_cancelled :: bool

text \<open>\<^verbatim>\<open>DeliverySlot.SLOT_CHOICES\<close>.\<close>

definition SLOT_CHOICES :: "(string \<times> string) list" where
  "SLOT_CHOICES = [(''MORNING'', ''8AM - 11AM''), (''AFTERNOON'', ''12PM - 3PM''),
                   (''EVENING'', ''4PM - 7PM'')]"

text \<open>The database: each table is the list of its rows in primary-key order.\<close>

record db =
  products :: "product list"
  stock :: "stock_balance list"
  slots :: "delivery_slot list"
  orders :: "preorder list"

text \<open>
  \<^verbatim>\<open>instance.save()\<close> of a row that is already stored: the row with the instance's primary
  key takes the instance's field values.
\<close>

definition save_stock :: "stock_balance \<Rightarrow> db \<Rightarrow> db" where
  "save_stock s d = d\<lparr>stock := map (\<lambda>r. if sb_id r = sb_id s then s else r) (stock d)\<rparr>"

definition save_preorder :: "preorder \<Rightarrow> db \<Rightarrow> db" where
  "save_preorder p d = d\<lparr>orders := map (\<lambda>r. if po_id r = po_id p then p else r) (orders d)\<rparr>"

text \<open>The primary key given to a new order: one more than the largest in the table.\<close>

definition next_order_id :: "db \<Rightarrow> nat" where
  "next_order_id d = Suc (fold max (map po_id (orders d)) 0)"


section \<open>Requests and responses\<close>

record user =
  uid :: nat
  is_authenticated :: bool

text \<open>
  The body of a placement request. A field is \<open>None\<close> when the key is absent.
  \<open>rq_quantity\<close> holds the outcome of \<^verbatim>\<open>int(request.data.get("quantity", 0))\<close>: \<open>None\<close> when
  \<^verbatim>\<open>int\<close> raises ValueError or TypeError, \<open>Some n\<close> otherwise (\<open>Some 0\<close> for an absent key).
\<close>

record order_request =
  rq_product_name :: "string option"
  rq_quantity :: "int option"
  rq_slot :: "string option"
  rq_delivery_address :: "string option"

text \<open>A row of the report: the columns named in \<^verbatim>\<open>.values(...)\<close>, the user by its key.\<close>

record report_row =
  r_id :: nat
  r_user :: nat
  r_product_name :: string
  r_quantity :: int
  r_delivery_date :: date

text \<open>
  One constructor for each response a view returns, carrying the values its message
  interpolates, and one for an exception that leaves the view uncaught.
\<close>

datatype exn = StockBalance_DoesNotExist | UnboundLocalError

datatype response =
    AuthenticationRequired
  | ProvideProductName
  | NoProductsFound string
  | NoExactMatch string "(nat \<times> string) list"
  | QuantityNotPositive
  | QuantityNotNumber
  | InvalidSlot "string list"
  | AddressEmpty
  | AddressNoLetter
  | AddressBadCharacter
  | StockNotFound
  | InsufficientStock string int
  | Created preorder
  | OrderNotFound
  | OrderAlreadyCancelled
  | OrderCancelled
  | StockWindowError
  | StockUpdated stock_balance
  | NotFound404
  | SlotRequired
  | NoOrdersFound string
  | OrderList "preorder list"
  | InvalidDateFormat
  | Report "report_row list"
  | Unhandled exn

fun status_code :: "response \<Rightarrow> nat" where
  "status_code AuthenticationRequired = 401"
| "status_code ProvideProductName = 400"
| "status_code (NoProductsFound n) = 404"
| "status_code (NoExactMatch n cs) = 300"
| "status_code QuantityNotPositive = 400"
| "status_code QuantityNotNumber = 400"
| "status_code (InvalidSlot vs) = 400"
| "status_code AddressEmpty = 400"
| "status_code AddressNoLetter = 400"
| "status_code AddressBadCharacter = 400"
| "status_code StockNotFound = 404"
| "status_code (InsufficientStock n q) = 400"
| "status_code (Created p) = 201"
| "status_code OrderNotFound = 404"
| "status_code OrderAlreadyCancelled = 400"
| "status_code OrderCancelled = 200"
| "status_code StockWindowError = 400"
| "status_code (StockUpdated s) = 200"
| "status_code NotFound404 = 404"
| "status_code SlotRequired = 400"
| "status_code (NoOrdersFound n) = 200"
| "status_code (OrderList rs) = 200"
| "status_code InvalidDateFormat = 400"
| "status_code (Report rs) = 200"
| "status_code (Unhandled e) = 500"


section \<open>StockUpdateView (views.py, lines 98-119)\<close>

text \<open>The window test of \<^verbatim>\<open>perform_update\<close>, line 114, as written.\<close>

definition in_update_window :: "time \<Rightarrow> bool" where
  "in_update_window t =
     ((time_le (mk_time 8 0) t \<and> time_le t (mk_time 12 0)) \<or>
      (time_le (mk_time 18 0) t \<and> time_le t (mk_time 19 0)))"

text \<open>
  \<^verbatim>\<open>perform_update\<close>: \<open>inst\<close> is the row the view was called on and \<open>q\<close> the validated
  quantity of the request. The field is a \<^verbatim>\<open>PositiveIntegerField\<close>, whose values are never
  negative, hence \<open>nat\<close>. Of the serializer's writable fields only the quantity is modelled.
\<close>

definition StockUpdateView_perform_update ::
    "datetime \<Rightarrow> stock_balance \<Rightarrow> nat \<Rightarrow> db \<Rightarrow> response \<times> db" where
  "StockUpdateView_perform_update now inst q d =
     (if \<not> in_update_window (dt_time now) then (StockWindowError, d)
      else (let inst' = inst\<lparr>sb_quantity := int q\<rparr>
            in (StockUpdated inst', save_stock inst' d)))"

text \<open>
  The request as the generic view runs it: the row is fetched by the primary key of the
  URL (a missing row is a 404 before \<^verbatim>\<open>perform_update\<close> is reached), then updated.
\<close>

definition StockUpdateView_update :: "datetime \<Rightarrow> nat \<Rightarrow> nat \<Rightarrow> db \<Rightarrow> response \<times> db" where
  "StockUpdateView_update now pk q d =
     (case find (\<lambda>s. sb_id s = pk) (stock d) of
        None \<Rightarrow> (NotFound404, d)
      | Some inst \<Rightarrow> StockUpdateView_perform_update now inst q d)"


section \<open>PreOrderCreateView (views.py, lines 122-237)\<close>

text \<open>Lines 150-164: the product lookup, by exact name first, by substring second.\<close>

datatype resolution = Found product | Suggestions "(nat \<times> string) list" | NoMatch

definition resolve_product :: "db \<Rightarrow> string \<Rightarrow> resolution" where
  "resolve_product d product_name =
     (case find (\<lambda>p. iexact (p_name p) product_name) (products d) of
        Some product \<Rightarrow> Found product
      | None \<Rightarrow>
          (let suggestions = filter (\<lambda>p. icontains (p_name p) product_name) (products d)
           in if suggestions = [] then NoMatch
              else Suggestions (map (\<lambda>p. (p_id p, p_name p)) suggestions)))"

text \<open>Lines 175-183 and 309-317: the slot lookup after trimming and upper-casing.\<close>

definition lookup_slot :: "db \<Rightarrow> string \<Rightarrow> delivery_slot option" where
  "lookup_slot d raw = (let slot_input = upper (strip raw)
                        in find (\<lambda>s. ds_name s = slot_input) (slots d))"

definition valid_slots :: "string list" where
  "valid_slots = map fst SLOT_CHOICES"

text \<open>Lines 186-200: the address checks; \<open>None\<close> when the address passes.\<close>

definition check_address :: "string \<Rightarrow> response option" where
  "check_address address =
     (if address = [] then Some AddressEmpty
      else if \<not> list_ex isalpha address then Some AddressNoLetter
      else if \<not> list_all (\<lambda>c. isalnum c \<or> isspace c \<or> c \<in> set '',.-'') address
        then Some AddressBadCharacter
      else None)"

text \<open>Lines 215-218: the cut-off rule.\<close>

definition cutoff :: time where
  "cutoff = mk_time 18 0"

definition delivery_date_for :: "datetime \<Rightarrow> date" where
  "delivery_date_for now =
     (let delivery_date = dt_date now + 1
      in if time_le cutoff (dt_time now) then delivery_date + 1 else delivery_date)"

text \<open>Lines 202-237: the stock check, the new order and the deduction.\<close>

definition reserve ::
    "datetime \<Rightarrow> user \<Rightarrow> product \<Rightarrow> int \<Rightarrow> delivery_slot \<Rightarrow> string \<Rightarrow> db \<Rightarrow> response \<times> db" where
  "reserve now u product qty slot address d =
     (case find (\<lambda>s. sb_product s = p_id product) (stock d) of
        None \<Rightarrow> (StockNotFound, d)
      | Some stk \<Rightarrow>
          if sb_quantity stk < qty
          then (InsufficientStock (p_name product) (sb_quantity stk), d)
          else (let preorder = \<lparr>po_id = next_order_id d, po_user = uid u,
                                po_product = p_id product, po_slot = ds_id slot,
                                po_quantity = qty, po_delivery_date = delivery_date_for now,
                                po_delivery_address = address, po_is_cancelled = False\<rparr>;
                    d1 = d\<lparr>orders := orders d @ [preorder]\<rparr>;
                    stk' = stk\<lparr>sb_quantity := sb_quantity stk - qty\<rparr>
                in (Created preorder, save_stock stk' d1)))"

definition str_or_empty :: "string option \<Rightarrow> string" where
  "str_or_empty v = (case v of None \<Rightarrow> [] | Some s \<Rightarrow> s)"

text \<open>Lines 166-237: what \<^verbatim>\<open>create\<close> does once the product is known.\<close>

definition create_with_product ::
    "datetime \<Rightarrow> user \<Rightarrow> product \<Rightarrow> order_request \<Rightarrow> db \<Rightarrow> response \<times> db" where
  "create_with_product now u product rq d =
     (case rq_quantity rq of
        None \<Rightarrow> (QuantityNotNumber, d)
      | Some qty \<Rightarrow>
          if qty \<le> 0 then (QuantityNotPositive, d)
          else (case lookup_slot d (str_or_empty (rq_slot rq)) of
                  None \<Rightarrow> (InvalidSlot valid_slots, d)
                | Some slot \<Rightarrow>
                    (let address = strip (str_or_empty (rq_delivery_address rq))
                     in case check_address address of
                          Some err \<Rightarrow> (err, d)
                        | None \<Rightarrow> reserve now u product qty slot address d)))"

definition PreOrderCreateView_create ::
    "datetime \<Rightarrow> user \<Rightarrow> order_request \<Rightarrow> db \<Rightarrow> response \<times> db" where
  "PreOrderCreateView_create now u rq d =
     (if \<not> is_authenticated u then (AuthenticationRequired, d)
      else (let product_name = strip (str_or_empty (rq_product_name rq))
            in if product_name = [] then (ProvideProductName, d)
               else (case resolve_product d product_name of
                       NoMatch \<Rightarrow> (NoProductsFound product_name, d)
                     | Suggestions cs \<Rightarrow> (NoExactMatch product_name cs, d)
                     | Found product \<Rightarrow> create_with_product now u product rq d)))"


section \<open>CancelOrderView (views.py, lines 240-274)\<close>

definition CancelOrderView_post :: "user \<Rightarrow> nat \<Rightarrow> db \<Rightarrow> response \<times> db" where
  "CancelOrderView_post u pk d =
     (case find (\<lambda>r. po_id r = pk \<and> po_user r = uid u) (orders d) of
        None \<Rightarrow> (OrderNotFound, d)
      | Some preorder \<Rightarrow>
          if po_is_cancelled preorder then (OrderAlreadyCancelled, d)
          else (let preorder' = preorder\<lparr>po_is_cancelled := True\<rparr>;
                    d1 = save_preorder preorder' d
                in case find (\<lambda>s. sb_product s = po_product preorder') (stock d1) of
                     None \<Rightarrow> (Unhandled StockBalance_DoesNotExist, d1)
                   | Some stk \<Rightarrow>
                       (OrderCancelled,
                        save_stock (stk\<lparr>sb_quantity := sb_quantity stk + po_quantity preorder'\<rparr>) d1)))"


section \<open>OrderListBySlotView (views.py, lines 287-326)\<close>

definition OrderListBySlotView_list :: "string option \<Rightarrow> db \<Rightarrow> response" where
  "OrderListBySlotView_list slot_param d =
     (case slot_param of
        None \<Rightarrow> SlotRequired
      | Some slot_input \<Rightarrow>
          if slot_input = [] then SlotRequired
          else (case lookup_slot d slot_input of
                  None \<Rightarrow> InvalidSlot valid_slots
                | Some slot \<Rightarrow>
                    (let queryset = filter (\<lambda>r. po_slot r = ds_id slot \<and> \<not> po_is_cancelled r)
                                      (orders d)
                     in if queryset = [] then NoOrdersFound (ds_name slot)
                        else OrderList queryset)))"


section \<open>TopProductsReportView (views.py, lines 329-387)\<close>

text \<open>
  The query of lines 370-385: the active orders delivered in the range, joined with
  their product, one row each, ordered by falling quantity. Rows of equal quantity come
  in an order the database chooses; here they keep their table order.
\<close>

definition report_rows :: "db \<Rightarrow> preorder list \<Rightarrow> report_row list" where
  "report_rows d rs =
     concat (map (\<lambda>r. case find (\<lambda>p. p_id p = po_product r) (products d) of
                        None \<Rightarrow> []
                      | Some p \<Rightarrow> [\<lparr>r_id = po_id r, r_user = po_user r, r_product_name = p_name p,
                                    r_quantity = po_quantity r,
                                    r_delivery_date = po_delivery_date r\<rparr>]) rs)"

definition orders_in_range :: "date \<Rightarrow> date \<Rightarrow> db \<Rightarrow> preorder list" where
  "orders_in_range start_date end_date d =
     filter (\<lambda>r. start_date \<le> po_delivery_date r \<and> po_delivery_date r \<le> end_date
                 \<and> \<not> po_is_cancelled r) (orders d)"

definition report_query :: "date \<Rightarrow> date \<Rightarrow> db \<Rightarrow> report_row list" where
  "report_query start_date end_date d =
     sort_key (\<lambda>r. - r_quantity r) (report_rows d (orders_in_range start_date end_date d))"

text \<open>
  \<open>start_param\<close> and \<open>end_param\<close> hold the outcome of \<^verbatim>\<open>datetime.strptime(..., "%Y-%m-%d").date()\<close>:
  \<open>None\<close> when it raises TypeError or ValueError. The assignment of \<^verbatim>\<open>qs\<close> sits inside the
  body of the \<^verbatim>\<open>if\<close> that swaps the two dates, so without a swap the \<^verbatim>\<open>return\<close> reads an
  unbound local.
\<close>

definition TopProductsReportView_get :: "date option \<Rightarrow> date option \<Rightarrow> db \<Rightarrow> response" where
  "TopProductsReportView_get start_param end_param d =
     (case start_param of
        None \<Rightarrow> InvalidDateFormat
      | Some start_date \<Rightarrow>
          (case end_param of
             None \<Rightarrow> InvalidDateFormat
           | Some end_date \<Rightarrow>
               if start_date > end_date then Report (report_query end_date start_date d)
               else Unhandled UnboundLocalError))"

section \<open>A placement in two steps\<close>

text \<open>
  \<^verbatim>\<open>create\<close> reads the stock row once (line 204) and writes later (lines 221-232): the
  check of line 208 and the deduction of line 231 use the row as it was read, and
  \<^verbatim>\<open>stock.save()\<close> stores that row with the new quantity. The view takes no lock and opens
  no transaction, so another request can run between the read and the writes. The two
  functions below are the two parts of \<open>reserve\<close>; the second takes the row that the
  first has read and the database as it is when the writes happen.
\<close>

definition reserve_read :: "product \<Rightarrow> db \<Rightarrow> stock_balance option" where
  "reserve_read product d = find (\<lambda>s. sb_product s = p_id product) (stock d)"

definition reserve_write ::
    "datetime \<Rightarrow> user \<Rightarrow> product \<Rightarrow> int \<Rightarrow> delivery_slot \<Rightarrow> string \<Rightarrow> stock_balance \<Rightarrow> db
       \<Rightarrow> response \<times> db" where
  "reserve_write now u product qty slot address stk d =
     (if sb_quantity stk < qty
      then (InsufficientStock (p_name product) (sb_quantity stk), d)
      else (let preorder = \<lparr>po_id = next_order_id d, po_user = uid u,
                            po_product = p_id product, po_slot = ds_id slot,
                            po_quantity = qty, po_delivery_date = delivery_date_for now,
                            po_delivery_address = address, po_is_cancelled = False\<rparr>;
                d1 = d\<lparr>orders := orders d @ [preorder]\<rparr>;
                stk' = stk\<lparr>sb_quantity := sb_quantity stk - qty\<rparr>
            in (Created preorder, save_stock stk' d1)))"

text \<open>
  The same for the whole view: everything up to and including the stock read, then the
  rest. Of a request that has passed all checks the view holds the product, the
  quantity, the slot, the address and the stock row it has read.
\<close>

datatype placement =
    Refused response
  | Checked product int delivery_slot string stock_balance

definition create_validate :: "user \<Rightarrow> order_request \<Rightarrow> db \<Rightarrow> placement" where
  "create_validate u rq d =
     (if \<not> is_authenticated u then Refused AuthenticationRequired
      else (let product_name = strip (str_or_empty (rq_product_name rq))
            in if product_name = [] then Refused ProvideProductName
               else (case resolve_product d product_name of
                       NoMatch \<Rightarrow> Refused (NoProductsFound product_name)
                     | Suggestions cs \<Rightarrow> Refused (NoExactMatch product_name cs)
                     | Found product \<Rightarrow>
                         (case rq_quantity rq of
                            None \<Rightarrow> Refused QuantityNotNumber
                          | Some qty \<Rightarrow>
                              if qty \<le> 0 then Refused QuantityNotPositive
                              else (case lookup_slot d (str_or_empty (rq_slot rq)) of
                                      None \<Rightarrow> Refused (InvalidSlot valid_slots)
                                    | Some slot \<Rightarrow>
                                        (let address = strip (str_or_empty (rq_delivery_address rq))
                                         in case check_address address of
                                              Some err \<Rightarrow> Refused err
                                            | None \<Rightarrow>
                                                (case reserve_read product d of
                                                   None \<Rightarrow> Refused StockNotFound
                                                 | Some stk \<Rightarrow>
                                                     Checked product qty slot address stk)))))))"

definition create_commit :: "datetime \<Rightarrow> user \<Rightarrow> placement \<Rightarrow> db \<Rightarrow> response \<times> db" where
  "create_commit now u pl d =
     (case pl of
        Refused resp \<Rightarrow> (resp, d)
      | Checked product qty slot address stk \<Rightarrow>
          reserve_write now u product qty slot address stk d)"

text \<open>
  Two requests that overlap: both run up to their stock read on the same database, then
  the first writes, then the second.
\<close>

definition overlapping_creates ::
    "datetime \<Rightarrow> user \<Rightarrow> order_request \<Rightarrow> user \<Rightarrow> order_request \<Rightarrow> db
       \<Rightarrow> response \<times> response \<times> db" where
  "overlapping_creates now u1 rq1 u2 rq2 d =
     (let pl1 = create_validate u1 rq1 d;
          pl2 = create_validate u2 rq2 d;
          (resp1, d1) = create_commit now u1 pl1 d;
          (resp2, d2) = create_commit now u2 pl2 d1
      in (resp1, resp2, d2))"

text \<open>
  The largest value that a \<^verbatim>\<open>PositiveIntegerField\<close> column holds on every database; a
  \<^verbatim>\<open>save()\<close> of more is refused by the database.
\<close>

definition PositiveIntegerField_max :: int where
  "PositiveIntegerField_max = 2147483647"



section \<open>Sequences of requests\<close>

datatype op =
    PlaceOrder datetime user order_request
  | CancelOrder user nat
  | AdjustStock datetime nat nat

fun step :: "op \<Rightarrow> db \<Rightarrow> db" where
  "step (PlaceOrder now u rq) d = snd (PreOrderCreateView_create now u rq d)"
| "step (CancelOrder u pk) d = snd (CancelOrderView_post u pk d)"
| "step (AdjustStock now pk q) d = snd (StockUpdateView_update now pk q d)"

definition run :: "op list \<Rightarrow> db \<Rightarrow> db" where
  "run ops d = fold step ops d"

text \<open>The column constraints of the two \<^verbatim>\<open>PositiveIntegerField\<close>s.\<close>

definition stock_nonneg :: "db \<Rightarrow> bool" where
  "stock_nonneg d = (\<forall>s \<in> set (stock d). 0 \<le> sb_quantity s)"

definition orders_nonneg :: "db \<Rightarrow> bool" where
  "orders_nonneg d = (\<forall>r \<in> set (orders d). 0 \<le> po_quantity r)"


section \<open>Fixtures\<close>

text \<open>The catalogue, stock and slots that the repository's tests create.\<close>

definition apple :: product where
  "apple = \<lparr>p_id = 1, p_name = ''Apple''\<rparr>"

definition banana :: product where
  "banana = \<lparr>p_id = 2, p_name = ''Banana''\<rparr>"

definition all_slots :: "delivery_slot list" where
  "all_slots = [\<lparr>ds_id = 1, ds_name = ''MORNING''\<rparr>, \<lparr>ds_id = 2, ds_name = ''AFTERNOON''\<rparr>,
                \<lparr>ds_id = 3, ds_name = ''EVENING''\<rparr>]"

definition db0 :: db where
  "db0 = \<lparr>products = [apple, banana],
          stock = [\<lparr>sb_id = 1, sb_product = 1, sb_quantity = 10\<rparr>,
                   \<lparr>sb_id = 2, sb_product = 2, sb_quantity = 5\<rparr>],
          slots = all_slots, orders = []\<rparr>"

definition cust :: user where
  "cust = \<lparr>uid = 2, is_authenticated = True\<rparr>"

definition at_time :: "date \<Rightarrow> nat \<Rightarrow> nat \<Rightarrow> nat \<Rightarrow> nat \<Rightarrow> datetime" where
  "at_time day h m s us =
     \<lparr>dt_date = day, dt_time = \<lparr>hour = h, minute = m, second = s, microsecond = us\<rparr>\<rparr>"

definition request :: "string \<Rightarrow> int \<Rightarrow> string \<Rightarrow> string \<Rightarrow> order_request" where
  "request nm q sl addr = \<lparr>rq_product_name = Some nm, rq_quantity = Some q, rq_slot = Some sl,
                            rq_delivery_address = Some addr\<rparr>"

definition ops0 :: "op list" where
  "ops0 = [PlaceOrder (at_time 100 17 0 0 0) cust (request ''Apple'' 6 ''MORNING'' ''123 Street''),
           PlaceOrder (at_time 100 17 0 0 0) cust (request ''Apple'' 6 ''MORNING'' ''123 Street''),
           CancelOrder cust 1,
           AdjustStock (at_time 100 8 30 0 0) 2 0]"

text \<open>An order as the repository's cancellation test stores it, and databases holding it.\<close>

definition apple_order :: preorder where
  "apple_order = \<lparr>po_id = 1, po_user = 2, po_product = 1, po_slot = 1, po_quantity = 1,
                   po_delivery_date = 100, po_delivery_address = ''123 Street'',
                   po_is_cancelled = False\<rparr>"

definition db1 :: db where
  "db1 = db0\<lparr>orders := [apple_order]\<rparr>"

definition db_no_apple_stock :: db where
  "db_no_apple_stock = \<lparr>products = [apple, banana],
                         stock = [\<lparr>sb_id = 2, sb_product = 2, sb_quantity = 5\<rparr>],
                         slots = all_slots, orders = [apple_order]\<rparr>"

definition other_cust :: user where
  "other_cust = \<lparr>uid = 3, is_authenticated = True\<rparr>"

text \<open>The catalogue of the disambiguation example.\<close>

definition bandaid :: product where
  "bandaid = \<lparr>p_id = 3, p_name = ''Bandaid''\<rparr>"

definition db_ban :: db where
  "db_ban = db0\<lparr>products := [apple, banana, bandaid]\<rparr>"


section \<open>Auxiliary predicates\<close>

text \<open>Primary keys of orders are unique, and user \<open>u\<close>'s order \<open>pk\<close> is stored as cancelled.\<close>

definition cancelled_in :: "user \<Rightarrow> nat \<Rightarrow> db \<Rightarrow> bool" where
  "cancelled_in u pk d =
     (distinct (map po_id (orders d)) \<and>
      (\<exists>po. find (\<lambda>r. po_id r = pk \<and> po_user r = uid u) (orders d) = Some po \<and>
            po_is_cancelled po))"


text \<open>
  \<open>v\<close> spells \<open>n\<close> up to the case of its letters; \<open>raw\<close> is \<open>v\<close> between two runs of
  blanks; the slot table holds a row for each of the three names.
\<close>

definition case_variant :: "string \<Rightarrow> string \<Rightarrow> bool" where
  "case_variant v n = (lower v = lower n)"

definition padded :: "string \<Rightarrow> string \<Rightarrow> bool" where
  "padded raw v = (\<exists>l r. raw = l @ v @ r \<and> list_all isspace l \<and> list_all isspace r)"

definition slots_seeded :: "db \<Rightarrow> bool" where
  "slots_seeded d = (\<forall>n \<in> set valid_slots. \<exists>s \<in> set (slots d). ds_name s = n)"


text \<open>The (product name, quantity) pairs of a report response.\<close>

definition report_pairs :: "response \<Rightarrow> (string \<times> int) list" where
  "report_pairs resp =
     (case resp of Report rows \<Rightarrow> map (\<lambda>r. (r_product_name r, r_quantity r)) rows | _ \<Rightarrow> [])"

text \<open>
  The report as claim C8 words it, for comparison with the view: one pair per product
  that has an active order delivered in the range, holding the sum of the quantities of
  these orders, by falling total.
\<close>

definition TopProducts_spec :: "date \<Rightarrow> date \<Rightarrow> db \<Rightarrow> (string \<times> int) list" where
  "TopProducts_spec start_date end_date d =
     (let rows = report_rows d (orders_in_range start_date end_date d);
          names = remdups (map r_product_name rows);
          totals = map (\<lambda>n. (n, sum_list (map r_quantity
                                    (filter (\<lambda>r. r_product_name r = n) rows)))) names
      in sort_key (\<lambda>(n, total). - total) totals)"

text \<open>Orders for a report: two for apples, one for bananas, one cancelled, one out of range.\<close>

definition db_report :: db where
  "db_report = db0\<lparr>orders :=
     [apple_order\<lparr>po_quantity := 2, po_delivery_date := 5\<rparr>,
      apple_order\<lparr>po_id := 2, po_quantity := 3, po_delivery_date := 6\<rparr>,
      apple_order\<lparr>po_id := 3, po_product := 2, po_quantity := 4, po_delivery_date := 6\<rparr>,
      apple_order\<lparr>po_id := 4, po_quantity := 9, po_delivery_date := 6, po_is_cancelled := True\<rparr>,
      apple_order\<lparr>po_id := 5, po_quantity := 7, po_delivery_date := 11\<rparr>]\<rparr>"


section \<open>Basic facts\<close>

lemma find_SomeD: "find P xs = Some x \<Longrightarrow> x \<in> set xs \<and> P x"
  by (induction xs) (auto split: if_splits)

lemma stock_save_stock [simp]:
  "stock (save_stock s d) = map (\<lambda>r. if sb_id r = sb_id s then s else r) (stock d)"
  by (simp add: save_stock_def)

lemma orders_save_stock [simp]: "orders (save_stock s d) = orders d"
  by (simp add: save_stock_def)

lemma stock_save_preorder [simp]: "stock (save_preorder p d) = stock d"
  by (simp add: save_preorder_def)

lemma orders_save_preorder [simp]:
  "orders (save_preorder p d) = map (\<lambda>r. if po_id r = po_id p then p else r) (orders d)"
  by (simp add: save_preorder_def)

lemma time_le_lower:
  "valid_time t \<Longrightarrow> time_le (mk_time h 0) t \<longleftrightarrow> h * 3600000000 \<le> micro_of_day t"
  by (auto simp: valid_time_def time_le_def mk_time_def micro_of_day_def)

lemma time_le_upper:
  "valid_time t \<Longrightarrow> time_le t (mk_time h 0) \<longleftrightarrow> micro_of_day t \<le> h * 3600000000"
  by (auto simp: valid_time_def time_le_def mk_time_def micro_of_day_def)

lemma time_lt_iff_not_le: "time_lt a b \<longleftrightarrow> \<not> time_le b a"
  by (auto simp: time_lt_def time_le_def)

lemma check_address_not_Created: "check_address a = Some err \<Longrightarrow> err \<noteq> Created po"
  by (auto simp: check_address_def split: if_splits)


section \<open>The cut-off rule\<close>

lemma reserve_date:
  "reserve now u p qty slot address d = (Created po, d') \<Longrightarrow>
   po_delivery_date po = delivery_date_for now"
  by (auto simp: reserve_def Let_def split: option.splits if_splits)

lemma create_with_product_date:
  "create_with_product now u p rq d = (Created po, d') \<Longrightarrow>
   po_delivery_date po = delivery_date_for now"
  by (auto simp: create_with_product_def Let_def split: option.splits if_splits
      dest: reserve_date check_address_not_Created)

lemma create_date:
  "PreOrderCreateView_create now u rq d = (Created po, d') \<Longrightarrow>
   po_delivery_date po = delivery_date_for now"
  by (auto simp: PreOrderCreateView_create_def Let_def split: resolution.splits if_splits
      dest: create_with_product_date)

text \<open>
  Claim C3. The delivery date is the day after \<open>now\<close> when the time of \<open>now\<close> is strictly
  before 18:00 and two days after \<open>now\<close> when it is 18:00 or later; one of the two always
  applies. At 17:59:59 (any microsecond) it is the next day, at 18:00:00 the day after
  that. The date stored in an order that \<open>create\<close> makes is this date, whatever the user,
  the request and the database are.
\<close>

theorem delivery_date_cutoff:
  "(time_lt (dt_time now) (mk_time 18 0) \<longrightarrow> delivery_date_for now = dt_date now + 1) \<and>
   (time_le (mk_time 18 0) (dt_time now) \<longrightarrow> delivery_date_for now = dt_date now + 2) \<and>
   (time_lt (dt_time now) (mk_time 18 0) \<or> time_le (mk_time 18 0) (dt_time now)) \<and>
   delivery_date_for (at_time day 17 59 59 us) = day + 1 \<and>
   delivery_date_for (at_time day 18 0 0 0) = day + 2 \<and>
   (PreOrderCreateView_create now u rq d = (Created po, d') \<longrightarrow>
      po_delivery_date po = delivery_date_for now)"
  by (auto simp: delivery_date_for_def cutoff_def time_lt_iff_not_le at_time_def Let_def
      time_le_def mk_time_def dest: create_date)

theorem delivery_date_cutoff_witness:
  "time_lt (dt_time (at_time 100 17 59 59 0)) (mk_time 18 0) \<and>
   delivery_date_for (at_time 100 17 59 59 0) = 101 \<and>
   time_le (mk_time 18 0) (dt_time (at_time 100 18 0 0 0)) \<and>
   delivery_date_for (at_time 100 18 0 0 0) = 102 \<and>
   PreOrderCreateView_create (at_time 100 18 0 0 0) cust
       (request ''Apple'' 2 ''MORNING'' ''123 Street'') db0
     = (Created \<lparr>po_id = 1, po_user = 2, po_product = 1, po_slot = 1, po_quantity = 2,
                 po_delivery_date = 102, po_delivery_address = ''123 Street'',
                 po_is_cancelled = False\<rparr>,
        db0\<lparr>stock := [\<lparr>sb_id = 1, sb_product = 1, sb_quantity = 8\<rparr>,
                       \<lparr>sb_id = 2, sb_product = 2, sb_quantity = 5\<rparr>],
            orders := [\<lparr>po_id = 1, po_user = 2, po_product = 1, po_slot = 1, po_quantity = 2,
                         po_delivery_date = 102, po_delivery_address = ''123 Street'',
                         po_is_cancelled = False\<rparr>]\<rparr>)"
proof -
  have a: "time_lt (dt_time (at_time 100 17 59 59 0)) (mk_time 18 0)"
    by code_simp
  have b: "time_le (mk_time 18 0) (dt_time (at_time 100 18 0 0 0))"
    by code_simp
  have c: "PreOrderCreateView_create (at_time 100 18 0 0 0) cust
       (request ''Apple'' 2 ''MORNING'' ''123 Street'') db0
     = (Created \<lparr>po_id = 1, po_user = 2, po_product = 1, po_slot = 1, po_quantity = 2,
                 po_delivery_date = 102, po_delivery_address = ''123 Street'',
                 po_is_cancelled = False\<rparr>,
        db0\<lparr>stock := [\<lparr>sb_id = 1, sb_product = 1, sb_quantity = 8\<rparr>,
                       \<lparr>sb_id = 2, sb_product = 2, sb_quantity = 5\<rparr>],
            orders := [\<lparr>po_id = 1, po_user = 2, po_product = 1, po_slot = 1, po_quantity = 2,
                         po_delivery_date = 102, po_delivery_address = ''123 Street'',
                         po_is_cancelled = False\<rparr>]\<rparr>)"
    by code_simp
  from delivery_date_cutoff [of "at_time 100 17 59 59 0"] a
  have "delivery_date_for (at_time 100 17 59 59 0) = 101" by (simp add: at_time_def)
  moreover from delivery_date_cutoff [of "at_time 100 18 0 0 0"] b
  have "delivery_date_for (at_time 100 18 0 0 0) = 102" by (simp add: at_time_def)
  ultimately show ?thesis using a b c by simp
qed


section \<open>The replenishment window\<close>

text \<open>
  Claim C7. For a time of day that \<^verbatim>\<open>datetime.time\<close> can hold, \<open>perform_update\<close> writes the
  new quantity exactly when the time lies in 08:00-12:00 or in 18:00-19:00 (ends
  included); at every other time it answers with the window error and the database,
  the stock row with it, is as before.
\<close>

theorem stock_update_window:
  assumes "valid_time (dt_time now)"
  shows "StockUpdateView_perform_update now inst q d =
           (if in_clock_range 8 12 (dt_time now) \<or> in_clock_range 18 19 (dt_time now)
            then (StockUpdated (inst\<lparr>sb_quantity := int q\<rparr>),
                  save_stock (inst\<lparr>sb_quantity := int q\<rparr>) d)
            else (StockWindowError, d))"
  using assms
  by (simp add: StockUpdateView_perform_update_def in_update_window_def in_clock_range_def
      time_le_lower time_le_upper Let_def)

theorem stock_update_window_witness:
  "valid_time (dt_time (at_time 100 14 0 0 0)) \<and>
   \<not> in_clock_range 8 12 (dt_time (at_time 100 14 0 0 0)) \<and>
   \<not> in_clock_range 18 19 (dt_time (at_time 100 14 0 0 0)) \<and>
   StockUpdateView_perform_update (at_time 100 14 0 0 0)
       \<lparr>sb_id = 1, sb_product = 1, sb_quantity = 10\<rparr> 20 db0 = (StockWindowError, db0) \<and>
   valid_time (dt_time (at_time 100 8 30 0 0)) \<and>
   in_clock_range 8 12 (dt_time (at_time 100 8 30 0 0)) \<and>
   StockUpdateView_perform_update (at_time 100 8 30 0 0)
       \<lparr>sb_id = 1, sb_product = 1, sb_quantity = 10\<rparr> 20 db0
     = (StockUpdated \<lparr>sb_id = 1, sb_product = 1, sb_quantity = 20\<rparr>,
        db0\<lparr>stock := [\<lparr>sb_id = 1, sb_product = 1, sb_quantity = 20\<rparr>,
                       \<lparr>sb_id = 2, sb_product = 2, sb_quantity = 5\<rparr>]\<rparr>)"
proof -
  have v1: "valid_time (dt_time (at_time 100 14 0 0 0))"
    and v2: "valid_time (dt_time (at_time 100 8 30 0 0))"
    by (simp_all add: valid_time_def at_time_def)
  have o1: "\<not> in_clock_range 8 12 (dt_time (at_time 100 14 0 0 0))"
    and o2: "\<not> in_clock_range 18 19 (dt_time (at_time 100 14 0 0 0))"
    and i1: "in_clock_range 8 12 (dt_time (at_time 100 8 30 0 0))"
    by (simp_all add: in_clock_range_def micro_of_day_def at_time_def)
  have s: "save_stock \<lparr>sb_id = 1, sb_product = 1, sb_quantity = 20\<rparr> db0
             = db0\<lparr>stock := [\<lparr>sb_id = 1, sb_product = 1, sb_quantity = 20\<rparr>,
                              \<lparr>sb_id = 2, sb_product = 2, sb_quantity = 5\<rparr>]\<rparr>"
    by (simp add: save_stock_def db0_def)
  from stock_update_window [OF v1, of "\<lparr>sb_id = 1, sb_product = 1, sb_quantity = 10\<rparr>" 20 db0]
    stock_update_window [OF v2, of "\<lparr>sb_id = 1, sb_product = 1, sb_quantity = 10\<rparr>" 20 db0]
    v1 v2 o1 o2 i1 s
  show ?thesis by simp
qed

section \<open>Stock never goes negative\<close>

lemma stock_nonneg_save_stock:
  "stock_nonneg d \<Longrightarrow> 0 \<le> sb_quantity s \<Longrightarrow> stock_nonneg (save_stock s d)"
  by (auto simp: stock_nonneg_def)

lemma orders_nonneg_save_stock [simp]: "orders_nonneg (save_stock s d) = orders_nonneg d"
  by (simp add: orders_nonneg_def)

lemma reserve_inv:
  assumes "stock_nonneg d" "orders_nonneg d" "0 < qty"
  shows "stock_nonneg (snd (reserve now u p qty slot address d)) \<and>
         orders_nonneg (snd (reserve now u p qty slot address d))"
proof (cases "find (\<lambda>s. sb_product s = p_id p) (stock d)")
  case None
  with assms show ?thesis by (simp add: reserve_def)
next
  case (Some stk)
  show ?thesis
  proof (cases "sb_quantity stk < qty")
    case True
    with Some assms show ?thesis by (simp add: reserve_def)
  next
    case False
    have "stock_nonneg (d\<lparr>orders := orders d @ [x]\<rparr>)" for x
      using assms(1) by (simp add: stock_nonneg_def)
    moreover have "orders_nonneg (d\<lparr>orders := orders d @ [x]\<rparr>)" if "0 \<le> po_quantity x" for x
      using assms(2) that by (auto simp: orders_nonneg_def)
    ultimately show ?thesis
      using Some False assms(3)
      by (simp add: reserve_def Let_def stock_nonneg_save_stock)
  qed
qed

lemma create_with_product_inv:
  assumes "stock_nonneg d" "orders_nonneg d"
  shows "stock_nonneg (snd (create_with_product now u p rq d)) \<and>
         orders_nonneg (snd (create_with_product now u p rq d))"
  using assms reserve_inv [OF assms]
  by (auto simp: create_with_product_def Let_def split: option.splits)

lemma create_inv:
  assumes "stock_nonneg d" "orders_nonneg d"
  shows "stock_nonneg (snd (PreOrderCreateView_create now u rq d)) \<and>
         orders_nonneg (snd (PreOrderCreateView_create now u rq d))"
  using assms create_with_product_inv [OF assms]
  by (auto simp: PreOrderCreateView_create_def Let_def split: resolution.splits)

lemma cancel_inv:
  assumes "stock_nonneg d" "orders_nonneg d"
  shows "stock_nonneg (snd (CancelOrderView_post u pk d)) \<and>
         orders_nonneg (snd (CancelOrderView_post u pk d))"
proof (cases "find (\<lambda>r. po_id r = pk \<and> po_user r = uid u) (orders d)")
  case None
  with assms show ?thesis by (simp add: CancelOrderView_post_def)
next
  case (Some po)
  then have po: "po \<in> set (orders d)" by (auto dest: find_SomeD)
  with assms(2) have q: "0 \<le> po_quantity po" by (simp add: orders_nonneg_def)
  have on: "orders_nonneg (save_preorder (po\<lparr>po_is_cancelled := True\<rparr>) d)"
    using assms(2) q by (auto simp: orders_nonneg_def)
  have sn: "stock_nonneg (save_preorder (po\<lparr>po_is_cancelled := True\<rparr>) d)"
    using assms(1) by (simp add: stock_nonneg_def)
  show ?thesis
  proof (cases "find (\<lambda>s. sb_product s = po_product po) (stock d)")
    case None
    with Some assms on sn show ?thesis
      by (simp add: CancelOrderView_post_def Let_def)
  next
    case stk: (Some stk)
    then have "stk \<in> set (stock d)" by (auto dest: find_SomeD)
    with assms(1) have "0 \<le> sb_quantity stk" by (simp add: stock_nonneg_def)
    with q have "0 \<le> sb_quantity (stk\<lparr>sb_quantity := sb_quantity stk + po_quantity po\<rparr>)"
      by simp
    from stock_nonneg_save_stock [OF sn this] on Some stk assms show ?thesis
      by (simp add: CancelOrderView_post_def Let_def)
  qed
qed

lemma update_inv:
  assumes "stock_nonneg d" "orders_nonneg d"
  shows "stock_nonneg (snd (StockUpdateView_update now pk q d)) \<and>
         orders_nonneg (snd (StockUpdateView_update now pk q d))"
  using assms
  by (auto simp: StockUpdateView_update_def StockUpdateView_perform_update_def Let_def
      stock_nonneg_save_stock split: option.splits)

lemma step_inv:
  "stock_nonneg d \<and> orders_nonneg d \<Longrightarrow> stock_nonneg (step x d) \<and> orders_nonneg (step x d)"
  by (cases x) (simp_all add: create_inv cancel_inv update_inv)

lemma run_inv:
  "stock_nonneg d \<and> orders_nonneg d \<Longrightarrow> stock_nonneg (run ops d) \<and> orders_nonneg (run ops d)"
  unfolding run_def
proof (induction ops arbitrary: d)
  case Nil
  then show ?case by simp
next
  case (Cons x xs)
  from Cons.IH [OF step_inv [OF Cons.prems]] show ?case by simp
qed

lemma create_insufficient:
  assumes "is_authenticated u"
    and "strip (str_or_empty (rq_product_name rq)) \<noteq> []"
    and "resolve_product d (strip (str_or_empty (rq_product_name rq))) = Found p"
    and "rq_quantity rq = Some qty"
    and "find (\<lambda>s. sb_product s = p_id p) (stock d) = Some stk"
    and "sb_quantity stk < qty"
  shows "snd (PreOrderCreateView_create now u rq d) = d"
    and "fst (PreOrderCreateView_create now u rq d) \<noteq> Created po"
    and "0 < qty \<Longrightarrow> lookup_slot d (str_or_empty (rq_slot rq)) = Some sl \<Longrightarrow>
         check_address (strip (str_or_empty (rq_delivery_address rq))) = None \<Longrightarrow>
         PreOrderCreateView_create now u rq d = (InsufficientStock (p_name p) (sb_quantity stk), d)"
  using assms
  by (auto simp: PreOrderCreateView_create_def create_with_product_def reserve_def Let_def
      check_address_def split: option.splits if_splits)

text \<open>
  Claim C1. From a database whose stock and order quantities are not negative (the two
  columns are \<^verbatim>\<open>PositiveIntegerField\<close>s), every sequence of placements, cancellations and
  stock updates leaves every stock quantity at 0 or more. A placement by a logged-in user
  whose product name resolves to a product and whose quantity is larger than that
  product's stock changes nothing and creates no order; when its quantity, slot and
  address pass their checks the answer is the insufficient-stock error carrying the
  product's name and the quantity in stock.
\<close>

theorem stock_never_negative:
  assumes "stock_nonneg d" and "orders_nonneg d"
  shows "stock_nonneg (run ops d) \<and>
    (is_authenticated u \<and> strip (str_or_empty (rq_product_name rq)) \<noteq> [] \<and>
     resolve_product d (strip (str_or_empty (rq_product_name rq))) = Found p \<and>
     rq_quantity rq = Some qty \<and>
     find (\<lambda>s. sb_product s = p_id p) (stock d) = Some stk \<and> sb_quantity stk < qty \<longrightarrow>
       snd (PreOrderCreateView_create now u rq d) = d \<and>
       (\<forall>po. fst (PreOrderCreateView_create now u rq d) \<noteq> Created po) \<and>
       (0 < qty \<and> lookup_slot d (str_or_empty (rq_slot rq)) \<noteq> None \<and>
        check_address (strip (str_or_empty (rq_delivery_address rq))) = None \<longrightarrow>
          PreOrderCreateView_create now u rq d
            = (InsufficientStock (p_name p) (sb_quantity stk), d)))"
proof -
  have "stock_nonneg (run ops d)"
    using run_inv [of d ops] assms by simp
  moreover have "snd (PreOrderCreateView_create now u rq d) = d \<and>
       (\<forall>po. fst (PreOrderCreateView_create now u rq d) \<noteq> Created po) \<and>
       (0 < qty \<and> lookup_slot d (str_or_empty (rq_slot rq)) \<noteq> None \<and>
        check_address (strip (str_or_empty (rq_delivery_address rq))) = None \<longrightarrow>
          PreOrderCreateView_create now u rq d
            = (InsufficientStock (p_name p) (sb_quantity stk), d))"
    if h: "is_authenticated u" "strip (str_or_empty (rq_product_name rq)) \<noteq> []"
      "resolve_product d (strip (str_or_empty (rq_product_name rq))) = Found p"
      "rq_quantity rq = Some qty"
      "find (\<lambda>s. sb_product s = p_id p) (stock d) = Some stk" "sb_quantity stk < qty"
    using create_insufficient(1) [OF h] create_insufficient(2) [OF h]
      create_insufficient(3) [OF h] by auto
  ultimately show ?thesis by blast
qed

theorem stock_never_negative_witness:
  "stock_nonneg db0 \<and> orders_nonneg db0 \<and>
   stock_nonneg (run ops0 db0) \<and>
   stock (run ops0 db0) = [\<lparr>sb_id = 1, sb_product = 1, sb_quantity = 10\<rparr>,
                           \<lparr>sb_id = 2, sb_product = 2, sb_quantity = 0\<rparr>] \<and>
   PreOrderCreateView_create (at_time 100 17 0 0 0) cust
       (request ''Banana'' 100 ''AFTERNOON'' ''789 Street'') db0
     = (InsufficientStock ''Banana'' 5, db0)"
proof -
  let ?rq = "request ''Banana'' 100 ''AFTERNOON'' ''789 Street''"
  let ?stk = "\<lparr>sb_id = 2, sb_product = 2, sb_quantity = 5\<rparr>"
  have a: "stock_nonneg db0" and b: "orders_nonneg db0"
    by code_simp+
  have c: "is_authenticated cust"
    and c1: "strip (str_or_empty (rq_product_name ?rq)) \<noteq> []"
    and c2: "resolve_product db0 (strip (str_or_empty (rq_product_name ?rq))) = Found banana"
    and c3: "rq_quantity ?rq = Some 100"
    and c4: "find (\<lambda>s. sb_product s = p_id banana) (stock db0) = Some ?stk"
    and c5: "sb_quantity ?stk < 100"
    and c6: "(0::int) < 100"
    and c7: "lookup_slot db0 (str_or_empty (rq_slot ?rq)) \<noteq> None"
    and c8: "check_address (strip (str_or_empty (rq_delivery_address ?rq))) = None"
    by code_simp+
  have e: "p_name banana = ''Banana''" "sb_quantity ?stk = 5"
    by code_simp+
  have r: "stock (run ops0 db0) = [\<lparr>sb_id = 1, sb_product = 1, sb_quantity = 10\<rparr>,
                                   \<lparr>sb_id = 2, sb_product = 2, sb_quantity = 0\<rparr>]"
    by code_simp
  from stock_never_negative [OF a b, of ops0 cust ?rq banana 100 ?stk "at_time 100 17 0 0 0"]
    a b c c1 c2 c3 c4 c5 c6 c7 c8 e r
  show ?thesis by simp
qed


section \<open>Placement and cancellation: what changes and when\<close>

lemma reserve_failure_unchanged:
  "reserve now u p qty slot address d = (resp, d') \<Longrightarrow> \<forall>po. resp \<noteq> Created po \<Longrightarrow> d' = d"
  by (auto simp: reserve_def Let_def split: option.splits if_splits)

lemma create_with_product_failure_unchanged:
  "create_with_product now u p rq d = (resp, d') \<Longrightarrow> \<forall>po. resp \<noteq> Created po \<Longrightarrow> d' = d"
  by (auto simp: create_with_product_def Let_def split: option.splits if_splits
      dest: reserve_failure_unchanged)

lemma create_failure_unchanged:
  "PreOrderCreateView_create now u rq d = (resp, d') \<Longrightarrow> \<forall>po. resp \<noteq> Created po \<Longrightarrow> d' = d"
  by (auto simp: PreOrderCreateView_create_def Let_def split: resolution.splits if_splits
      dest: create_with_product_failure_unchanged)

lemma reserve_success:
  "reserve now u p qty slot address d = (Created po, d') \<Longrightarrow>
     \<exists>stk. find (\<lambda>s. sb_product s = po_product po) (stock d) = Some stk \<and>
        po_quantity po \<le> sb_quantity stk \<and> po_quantity po = qty \<and>
        orders d' = orders d @ [po] \<and>
        stock d' = map (\<lambda>r. if sb_id r = sb_id stk
                             then stk\<lparr>sb_quantity := sb_quantity stk - po_quantity po\<rparr>
                             else r) (stock d)"
  by (auto simp: reserve_def Let_def split: option.splits if_splits)

lemma create_with_product_success:
  "create_with_product now u p rq d = (Created po, d') \<Longrightarrow>
     \<exists>stk. find (\<lambda>s. sb_product s = po_product po) (stock d) = Some stk \<and>
        po_quantity po \<le> sb_quantity stk \<and> 0 < po_quantity po \<and>
        orders d' = orders d @ [po] \<and>
        stock d' = map (\<lambda>r. if sb_id r = sb_id stk
                             then stk\<lparr>sb_quantity := sb_quantity stk - po_quantity po\<rparr>
                             else r) (stock d)"
proof -
  assume a: "create_with_product now u p rq d = (Created po, d')"
  then have "\<exists>qty slot address. 0 < qty \<and>
      reserve now u p qty slot address d = (Created po, d')"
    by (fastforce simp: create_with_product_def Let_def not_le split: option.splits if_splits
        dest: check_address_not_Created)
  then obtain qty slot address where "0 < qty"
    "reserve now u p qty slot address d = (Created po, d')"
    by blast
  then show ?thesis using reserve_success by fastforce
qed

text \<open>A placement that succeeds appends the order and deducts its quantity, both.\<close>

lemma create_success:
  "PreOrderCreateView_create now u rq d = (Created po, d') \<Longrightarrow>
     \<exists>stk. find (\<lambda>s. sb_product s = po_product po) (stock d) = Some stk \<and>
        po_quantity po \<le> sb_quantity stk \<and> 0 < po_quantity po \<and>
        orders d' = orders d @ [po] \<and>
        stock d' = map (\<lambda>r. if sb_id r = sb_id stk
                             then stk\<lparr>sb_quantity := sb_quantity stk - po_quantity po\<rparr>
                             else r) (stock d)"
  by (auto simp: PreOrderCreateView_create_def Let_def split: resolution.splits if_splits
      dest: create_with_product_success)

lemma cancel_responses:
  "fst (CancelOrderView_post u pk d) \<in>
     {OrderNotFound, OrderAlreadyCancelled, OrderCancelled, Unhandled StockBalance_DoesNotExist}"
  by (auto simp: CancelOrderView_post_def Let_def split: option.splits)

text \<open>The two error responses of a cancellation leave the database as it was.\<close>

lemma cancel_failure_unchanged:
  "CancelOrderView_post u pk d = (resp, d') \<Longrightarrow>
   resp = OrderNotFound \<or> resp = OrderAlreadyCancelled \<Longrightarrow> d' = d"
  by (auto simp: CancelOrderView_post_def Let_def split: option.splits if_splits)

lemma cancel_success:
  assumes "CancelOrderView_post u pk d = (OrderCancelled, d')"
  shows "\<exists>po stk. find (\<lambda>r. po_id r = pk \<and> po_user r = uid u) (orders d) = Some po \<and>
           \<not> po_is_cancelled po \<and>
           find (\<lambda>s. sb_product s = po_product po) (stock d) = Some stk \<and>
           d' = save_stock (stk\<lparr>sb_quantity := sb_quantity stk + po_quantity po\<rparr>)
                  (save_preorder (po\<lparr>po_is_cancelled := True\<rparr>) d)"
  using assms by (auto simp: CancelOrderView_post_def Let_def split: option.splits if_splits)

text \<open>
  Claim C2. The claim fails for a cancellation of an order whose product has no stock
  row: the view stores the cancelled flag (line 268), then the stock lookup of line 270
  raises \<^verbatim>\<open>StockBalance.DoesNotExist\<close>, which nothing catches. The order is left cancelled
  and no stock is restored.
\<close>

theorem cancel_without_stock_row:
  "CancelOrderView_post cust 1 db_no_apple_stock
     = (Unhandled StockBalance_DoesNotExist,
        db_no_apple_stock\<lparr>orders := [apple_order\<lparr>po_is_cancelled := True\<rparr>]\<rparr>) \<and>
   stock (snd (CancelOrderView_post cust 1 db_no_apple_stock)) = stock db_no_apple_stock \<and>
   orders (snd (CancelOrderView_post cust 1 db_no_apple_stock)) \<noteq> orders db_no_apple_stock"
  by code_simp


section \<open>Cancelling somebody else's order\<close>

lemma cancel_not_found:
  assumes "\<forall>r \<in> set (orders d). po_id r = pk \<longrightarrow> po_user r \<noteq> uid u"
  shows "CancelOrderView_post u pk d = (OrderNotFound, d)"
proof -
  have "find (\<lambda>r. po_id r = pk \<and> po_user r = uid u) (orders d) = None"
    using assms by (auto simp: find_None_iff)
  then show ?thesis by (simp add: CancelOrderView_post_def)
qed

text \<open>
  Claim C6. When no stored order has both the given key and the acting user as owner
  (the key is unknown, or it is the key of another user's order), the cancellation
  answers "not found" and changes nothing. In particular a database without the key and
  a database where the key belongs to somebody else give the acting user the same
  response.
\<close>

theorem cancel_foreign_order_not_found:
  "((\<forall>r \<in> set (orders d). po_id r = pk \<longrightarrow> po_user r \<noteq> uid u) \<longrightarrow>
      CancelOrderView_post u pk d = (OrderNotFound, d)) \<and>
   ((\<forall>r \<in> set (orders d1). po_id r \<noteq> pk) \<and>
    (\<exists>r \<in> set (orders d2). po_id r = pk) \<and>
    (\<forall>r \<in> set (orders d2). po_id r = pk \<longrightarrow> po_user r \<noteq> uid u) \<longrightarrow>
      fst (CancelOrderView_post u pk d1) = fst (CancelOrderView_post u pk d2) \<and>
      fst (CancelOrderView_post u pk d2) = OrderNotFound \<and>
      snd (CancelOrderView_post u pk d1) = d1 \<and> snd (CancelOrderView_post u pk d2) = d2)"
proof -
  have "fst (CancelOrderView_post u pk d1) = fst (CancelOrderView_post u pk d2) \<and>
      fst (CancelOrderView_post u pk d2) = OrderNotFound \<and>
      snd (CancelOrderView_post u pk d1) = d1 \<and> snd (CancelOrderView_post u pk d2) = d2"
    if a: "\<forall>r \<in> set (orders d1). po_id r \<noteq> pk"
      and b: "\<forall>r \<in> set (orders d2). po_id r = pk \<longrightarrow> po_user r \<noteq> uid u"
  proof -
    from a have "\<forall>r \<in> set (orders d1). po_id r = pk \<longrightarrow> po_user r \<noteq> uid u" by simp
    from cancel_not_found [OF this] cancel_not_found [OF b] show ?thesis by simp
  qed
  then show ?thesis using cancel_not_found [of d pk u] by blast
qed

theorem cancel_foreign_order_not_found_witness:
  "list_all (\<lambda>r. po_id r \<noteq> 1) (orders db0) \<and>
   list_ex (\<lambda>r. po_id r = 1) (orders db1) \<and>
   list_all (\<lambda>r. po_id r = 1 \<longrightarrow> po_user r \<noteq> uid other_cust) (orders db1) \<and>
   CancelOrderView_post other_cust 1 db0 = (OrderNotFound, db0) \<and>
   CancelOrderView_post other_cust 1 db1 = (OrderNotFound, db1)"
proof -
  have a: "list_all (\<lambda>r. po_id r \<noteq> 1) (orders db0)"
    and b: "list_ex (\<lambda>r. po_id r = 1) (orders db1)"
    and c: "list_all (\<lambda>r. po_id r = 1 \<longrightarrow> po_user r \<noteq> uid other_cust) (orders db1)"
    by code_simp+
  from a have a': "\<forall>r \<in> set (orders db0). po_id r \<noteq> 1"
    by (simp add: list_all_iff)
  from b have b': "\<exists>r \<in> set (orders db1). po_id r = 1"
    by (simp add: list_ex_iff)
  from c have c': "\<forall>r \<in> set (orders db1). po_id r = 1 \<longrightarrow> po_user r \<noteq> uid other_cust"
    by (simp add: list_all_iff)
  from cancel_foreign_order_not_found [of db1 1 other_cust db0 db1] a' b' c'
  have "CancelOrderView_post other_cust 1 db1 = (OrderNotFound, db1)"
    "fst (CancelOrderView_post other_cust 1 db0) = OrderNotFound"
    "snd (CancelOrderView_post other_cust 1 db0) = db0"
    by simp_all
  with a b c show ?thesis by (simp add: prod_eq_iff)
qed


section \<open>Cancelling twice\<close>

lemma find_map_replace:
  "find P xs = Some x \<Longrightarrow> P x' \<Longrightarrow>
   find P (map (\<lambda>r. if f r = f x then x' else r) xs) = Some x'"
  by (induction xs) (auto split: if_splits)

lemma find_map_unchanged:
  "(\<And>r. r \<in> set xs \<Longrightarrow> P (g r) = P r \<and> (P r \<longrightarrow> g r = r)) \<Longrightarrow>
   find P (map g xs) = find P xs"
  by (induction xs) auto

lemma find_append_Some: "find P xs = Some x \<Longrightarrow> find P (xs @ ys) = Some x"
  by (induction xs) (auto split: if_splits)

lemma fold_max_ge: "x \<in> set xs \<Longrightarrow> x \<le> fold max xs (a::nat)"
proof (induction xs arbitrary: a)
  case Nil
  then show ?case by simp
next
  case (Cons y ys)
  have mono: "a \<le> fold max ys a" for a :: nat
    by (induction ys arbitrary: a) (auto intro: order_trans [OF max.cobounded2])
  from Cons show ?case
    by (auto intro: order_trans [OF max.cobounded1 mono])
qed

lemma next_order_id_fresh: "next_order_id d \<notin> po_id ` set (orders d)"
proof
  assume "next_order_id d \<in> po_id ` set (orders d)"
  then have "next_order_id d \<in> set (map po_id (orders d))" by simp
  from fold_max_ge [OF this, of 0] show False by (simp add: next_order_id_def)
qed

lemma po_id_replace:
  "po_id \<circ> (\<lambda>r. if po_id r = po_id q then q\<lparr>po_is_cancelled := True\<rparr> else r) = po_id"
  by (rule ext) simp

lemma cancelled_in_append:
  assumes "cancelled_in u pk d" "po_id x \<notin> po_id ` set (orders d)"
  shows "cancelled_in u pk (d\<lparr>orders := orders d @ [x]\<rparr>)"
  using assms by (auto simp: cancelled_in_def find_append_Some)

lemma cancelled_in_save_stock [simp]: "cancelled_in u pk (save_stock s d) = cancelled_in u pk d"
  by (simp add: cancelled_in_def)

lemma reserve_cancelled_in:
  "cancelled_in u pk d \<Longrightarrow> cancelled_in u pk (snd (reserve now u' p qty slot address d))"
  using next_order_id_fresh [of d]
  by (auto simp: reserve_def Let_def split: option.splits intro!: cancelled_in_append)

lemma create_cancelled_in:
  "cancelled_in u pk d \<Longrightarrow> cancelled_in u pk (snd (PreOrderCreateView_create now u' rq d))"
  by (auto simp: PreOrderCreateView_create_def create_with_product_def Let_def
      reserve_cancelled_in split: resolution.splits option.splits)

lemma save_preorder_cancelled_in:
  assumes c: "cancelled_in u pk d"
    and f: "find (\<lambda>r. po_id r = pk' \<and> po_user r = uid u') (orders d) = Some q"
    and n: "\<not> po_is_cancelled q"
  shows "cancelled_in u pk (save_preorder (q\<lparr>po_is_cancelled := True\<rparr>) d)"
proof -
  let ?P = "\<lambda>r. po_id r = pk \<and> po_user r = uid u"
  let ?g = "\<lambda>r. if po_id r = po_id q then q\<lparr>po_is_cancelled := True\<rparr> else r"
  from c obtain po where d: "distinct (map po_id (orders d))"
    and po: "find ?P (orders d) = Some po" "po_is_cancelled po"
    by (auto simp: cancelled_in_def)
  from f have q: "q \<in> set (orders d)" by (auto dest: find_SomeD)
  from po have pin: "po \<in> set (orders d)" "?P po" by (auto dest: find_SomeD)
  have same: "r = q" if "r \<in> set (orders d)" "po_id r = po_id q" for r
    using d q that by (meson distinct_map inj_onD)
  have nP: "\<not> ?P q"
  proof
    assume "?P q"
    with pin have "po_id po = po_id q" by simp
    with same [OF pin(1)] have "po = q" by simp
    with po(2) n show False by simp
  qed
  have "find ?P (map ?g (orders d)) = find ?P (orders d)"
  proof (rule find_map_unchanged)
    fix r assume r: "r \<in> set (orders d)"
    show "?P (?g r) = ?P r \<and> (?P r \<longrightarrow> ?g r = r)"
      using same [OF r] nP by auto
  qed
  then show ?thesis using d po by (simp add: cancelled_in_def po_id_replace)
qed

lemma cancel_cancelled_in:
  "cancelled_in u pk d \<Longrightarrow> cancelled_in u pk (snd (CancelOrderView_post u' pk' d))"
  by (auto simp: CancelOrderView_post_def Let_def save_preorder_cancelled_in
      split: option.splits)

lemma update_cancelled_in:
  "cancelled_in u pk d \<Longrightarrow> cancelled_in u pk (snd (StockUpdateView_update now pk' q d))"
  by (auto simp: StockUpdateView_update_def StockUpdateView_perform_update_def Let_def
      split: option.splits)

lemma step_cancelled_in: "cancelled_in u pk d \<Longrightarrow> cancelled_in u pk (step x d)"
  by (cases x) (simp_all add: create_cancelled_in cancel_cancelled_in update_cancelled_in)

lemma run_cancelled_in: "cancelled_in u pk d \<Longrightarrow> cancelled_in u pk (run ops d)"
  unfolding run_def by (induction ops arbitrary: d) (simp_all add: step_cancelled_in)

lemma cancel_when_cancelled:
  "cancelled_in u pk d \<Longrightarrow> CancelOrderView_post u pk d = (OrderAlreadyCancelled, d)"
  by (auto simp: cancelled_in_def CancelOrderView_post_def)

text \<open>An active order of the caller whose product has a stock row is cancelled.\<close>

lemma cancel_succeeds:
  assumes "find (\<lambda>r. po_id r = pk \<and> po_user r = uid u) (orders d) = Some po"
    and "\<not> po_is_cancelled po"
    and "find (\<lambda>s. sb_product s = po_product po) (stock d) = Some stk"
  shows "CancelOrderView_post u pk d
           = (OrderCancelled,
              save_stock (stk\<lparr>sb_quantity := sb_quantity stk + po_quantity po\<rparr>)
                (save_preorder (po\<lparr>po_is_cancelled := True\<rparr>) d))"
  using assms by (simp add: CancelOrderView_post_def Let_def)

text \<open>
  Claim C4. Take a database with unique order keys in which the caller owns the order,
  the order is active, its product has a stock row, and the restored quantity stays
  within the range of the column. Then the first cancellation succeeds; afterwards the
  stock row of the product holds the old quantity plus the order's quantity, no other
  stock row has changed, and the order is stored as cancelled. Cancelling the same order
  again, at once or after any further sequence of requests, answers "already cancelled"
  and changes nothing. So the stock is restored exactly once.
\<close>

theorem cancel_twice_restores_once:
  assumes "distinct (map po_id (orders d))"
    and "find (\<lambda>r. po_id r = pk \<and> po_user r = uid u) (orders d) = Some po"
    and "\<not> po_is_cancelled po"
    and "find (\<lambda>s. sb_product s = po_product po) (stock d) = Some stk"
    and "sb_quantity stk + po_quantity po \<le> PositiveIntegerField_max"
  shows "\<exists>d'. CancelOrderView_post u pk d = (OrderCancelled, d') \<and>
            find (\<lambda>s. sb_product s = po_product po) (stock d')
              = Some (stk\<lparr>sb_quantity := sb_quantity stk + po_quantity po\<rparr>) \<and>
            stock d' = map (\<lambda>r. if sb_id r = sb_id stk
                                 then stk\<lparr>sb_quantity := sb_quantity stk + po_quantity po\<rparr>
                                 else r) (stock d) \<and>
            find (\<lambda>r. po_id r = pk \<and> po_user r = uid u) (orders d')
              = Some (po\<lparr>po_is_cancelled := True\<rparr>) \<and>
            CancelOrderView_post u pk d' = (OrderAlreadyCancelled, d') \<and>
            (\<forall>ops. CancelOrderView_post u pk (run ops d')
                     = (OrderAlreadyCancelled, run ops d'))"
proof -
  let ?P = "\<lambda>r. po_id r = pk \<and> po_user r = uid u"
  let ?stk' = "stk\<lparr>sb_quantity := sb_quantity stk + po_quantity po\<rparr>"
  let ?po' = "po\<lparr>po_is_cancelled := True\<rparr>"
  define d' where "d' = save_stock ?stk' (save_preorder ?po' d)"
  have ok: "CancelOrderView_post u pk d = (OrderCancelled, d')"
    unfolding d'_def by (rule cancel_succeeds [OF assms(2,3,4)])
  from assms(4) have "sb_product stk = po_product po" by (auto dest: find_SomeD)
  then have "sb_product ?stk' = po_product po" by simp
  from find_map_replace [where P = "\<lambda>s. sb_product s = po_product po" and f = sb_id,
      OF assms(4) this]
  have s1: "find (\<lambda>s. sb_product s = po_product po) (stock d') = Some ?stk'"
    by (simp add: d'_def)
  have s2: "stock d' = map (\<lambda>r. if sb_id r = sb_id stk then ?stk' else r) (stock d)"
    by (simp add: d'_def)
  from assms(2) have "?P po" by (auto dest: find_SomeD)
  then have "?P ?po'" by simp
  from find_map_replace [where P = ?P and f = po_id, OF assms(2) this]
  have o1: "find ?P (orders d') = Some ?po'"
    by (simp add: d'_def)
  have "distinct (map po_id (orders d'))"
    using assms(1) by (simp add: d'_def po_id_replace)
  with o1 have c: "cancelled_in u pk d'"
    by (simp add: cancelled_in_def)
  have "CancelOrderView_post u pk (run ops d') = (OrderAlreadyCancelled, run ops d')" for ops
    by (rule cancel_when_cancelled [OF run_cancelled_in [OF c]])
  with ok s1 s2 o1 cancel_when_cancelled [OF c] show ?thesis by blast
qed

theorem cancel_twice_restores_once_witness:
  "distinct (map po_id (orders db1)) \<and>
   find (\<lambda>r. po_id r = 1 \<and> po_user r = uid cust) (orders db1) = Some apple_order \<and>
   \<not> po_is_cancelled apple_order \<and>
   find (\<lambda>s. sb_product s = po_product apple_order) (stock db1)
     = Some \<lparr>sb_id = 1, sb_product = 1, sb_quantity = 10\<rparr> \<and>
   10 + po_quantity apple_order \<le> PositiveIntegerField_max \<and>
   CancelOrderView_post cust 1 db1
     = (OrderCancelled,
        db1\<lparr>stock := [\<lparr>sb_id = 1, sb_product = 1, sb_quantity = 11\<rparr>,
                       \<lparr>sb_id = 2, sb_product = 2, sb_quantity = 5\<rparr>],
            orders := [apple_order\<lparr>po_is_cancelled := True\<rparr>]\<rparr>) \<and>
   CancelOrderView_post cust 1
       (db1\<lparr>stock := [\<lparr>sb_id = 1, sb_product = 1, sb_quantity = 11\<rparr>,
                       \<lparr>sb_id = 2, sb_product = 2, sb_quantity = 5\<rparr>],
            orders := [apple_order\<lparr>po_is_cancelled := True\<rparr>]\<rparr>)
     = (OrderAlreadyCancelled,
        db1\<lparr>stock := [\<lparr>sb_id = 1, sb_product = 1, sb_quantity = 11\<rparr>,
                       \<lparr>sb_id = 2, sb_product = 2, sb_quantity = 5\<rparr>],
            orders := [apple_order\<lparr>po_is_cancelled := True\<rparr>]\<rparr>)"
proof -
  let ?stk = "\<lparr>sb_id = 1, sb_product = 1, sb_quantity = 10\<rparr>"
  let ?d' = "db1\<lparr>stock := [\<lparr>sb_id = 1, sb_product = 1, sb_quantity = 11\<rparr>,
                            \<lparr>sb_id = 2, sb_product = 2, sb_quantity = 5\<rparr>],
                 orders := [apple_order\<lparr>po_is_cancelled := True\<rparr>]\<rparr>"
  have a: "distinct (map po_id (orders db1))"
    and b: "find (\<lambda>r. po_id r = 1 \<and> po_user r = uid cust) (orders db1) = Some apple_order"
    and c: "\<not> po_is_cancelled apple_order"
    and e: "find (\<lambda>s. sb_product s = po_product apple_order) (stock db1) = Some ?stk"
    by code_simp+
  have f: "sb_quantity ?stk + po_quantity apple_order \<le> PositiveIntegerField_max"
    by (simp add: apple_order_def PositiveIntegerField_max_def)
  have g: "CancelOrderView_post cust 1 db1 = (OrderCancelled, ?d')"
    by code_simp
  from cancel_twice_restores_once [OF a b c e f] obtain d' where
    h: "CancelOrderView_post cust 1 db1 = (OrderCancelled, d')"
      "CancelOrderView_post cust 1 d' = (OrderAlreadyCancelled, d')"
    by blast
  from h(1) g have "d' = ?d'" by simp
  with h(2) have "CancelOrderView_post cust 1 ?d' = (OrderAlreadyCancelled, ?d')" by simp
  with a b c e f g show ?thesis by simp
qed


section \<open>Product resolution\<close>

lemma contains_iff: "contains s x \<longleftrightarrow> (\<exists>pre suf. s = pre @ x @ suf)"
proof (induction s)
  case Nil
  then show ?case by auto
next
  case (Cons c cs)
  have "(\<exists>pre suf. c # cs = pre @ x @ suf) \<longleftrightarrow>
        (\<exists>suf. c # cs = x @ suf) \<or> (\<exists>pre suf. cs = pre @ x @ suf)"
  proof
    assume "\<exists>pre suf. c # cs = pre @ x @ suf"
    then obtain pre suf where e: "c # cs = pre @ x @ suf" by blast
    show "(\<exists>suf. c # cs = x @ suf) \<or> (\<exists>pre suf. cs = pre @ x @ suf)"
    proof (cases pre)
      case Nil
      with e show ?thesis by auto
    next
      case (Cons a pre')
      with e have "cs = pre' @ x @ suf" by simp
      then show ?thesis by blast
    qed
  next
    assume "(\<exists>suf. c # cs = x @ suf) \<or> (\<exists>pre suf. cs = pre @ x @ suf)"
    then show "\<exists>pre suf. c # cs = pre @ x @ suf"
    proof
      assume "\<exists>suf. c # cs = x @ suf"
      then obtain suf where "c # cs = [] @ x @ suf" by auto
      then show ?thesis by blast
    next
      assume "\<exists>pre suf. cs = pre @ x @ suf"
      then obtain pre suf where "c # cs = (c # pre) @ x @ suf" by auto
      then show ?thesis by blast
    qed
  qed
  moreover have "take (length x) (c # cs) = x \<longleftrightarrow> (\<exists>suf. c # cs = x @ suf)"
    by (metis append_eq_conv_conj append_take_drop_id)
  ultimately show ?case using Cons.IH by simp
qed

lemma icontains_iff: "icontains f x \<longleftrightarrow> (\<exists>pre suf. upper f = pre @ upper x @ suf)"
  by (simp add: icontains_def contains_iff)

lemma find_first_match:
  "\<exists>p \<in> set xs. P p \<Longrightarrow> \<exists>p \<in> set xs. P p \<and> find P xs = Some p"
  by (induction xs) auto

text \<open>
  Claim C5. For a logged-in user and a name that is not empty after trimming, exactly
  one of three things happens. If some product's name equals the name up to case,
  the view goes on with such a product (the first in the table). Otherwise, if the
  name occurs up to case inside the name of at least one product, the response is
  the "no exact match" response listing the id and name of every such product, and
  the database is unchanged. Otherwise the response is "no products found" and the
  database is unchanged.
\<close>

theorem product_resolution_trichotomy:
  assumes "is_authenticated u"
    and "nm = strip (str_or_empty (rq_product_name rq))"
    and "nm \<noteq> []"
  shows "((\<exists>p \<in> set (products d). upper (p_name p) = upper nm) \<longrightarrow>
            (\<exists>p \<in> set (products d). upper (p_name p) = upper nm \<and>
               resolve_product d nm = Found p \<and>
               PreOrderCreateView_create now u rq d = create_with_product now u p rq d)) \<and>
         ((\<forall>p \<in> set (products d). upper (p_name p) \<noteq> upper nm) \<and>
          (\<exists>p \<in> set (products d). \<exists>pre suf. upper (p_name p) = pre @ upper nm @ suf) \<longrightarrow>
            PreOrderCreateView_create now u rq d
              = (NoExactMatch nm
                   (map (\<lambda>p. (p_id p, p_name p))
                      (filter (\<lambda>p. \<exists>pre suf. upper (p_name p) = pre @ upper nm @ suf)
                         (products d))), d)) \<and>
         ((\<forall>p \<in> set (products d). \<not> (\<exists>pre suf. upper (p_name p) = pre @ upper nm @ suf)) \<longrightarrow>
            PreOrderCreateView_create now u rq d = (NoProductsFound nm, d))"
proof (intro conjI impI)
  assume "\<exists>p \<in> set (products d). upper (p_name p) = upper nm"
  then have "\<exists>p \<in> set (products d). iexact (p_name p) nm" by (simp add: iexact_def)
  from find_first_match [OF this] obtain p where p: "p \<in> set (products d)"
    "iexact (p_name p) nm" "find (\<lambda>p. iexact (p_name p) nm) (products d) = Some p"
    by blast
  then have "resolve_product d nm = Found p" by (simp add: resolve_product_def)
  moreover from this assms
  have "PreOrderCreateView_create now u rq d = create_with_product now u p rq d"
    by (simp add: PreOrderCreateView_create_def Let_def)
  ultimately show "\<exists>p \<in> set (products d). upper (p_name p) = upper nm \<and>
               resolve_product d nm = Found p \<and>
               PreOrderCreateView_create now u rq d = create_with_product now u p rq d"
    using p by (auto simp: iexact_def)
next
  let ?sub = "\<lambda>p. \<exists>pre suf. upper (p_name p) = pre @ upper nm @ suf"
  assume a: "(\<forall>p \<in> set (products d). upper (p_name p) \<noteq> upper nm) \<and>
          (\<exists>p \<in> set (products d). ?sub p)"
  then have n: "find (\<lambda>p. iexact (p_name p) nm) (products d) = None"
    by (auto simp: find_None_iff iexact_def)
  have f: "filter (\<lambda>p. icontains (p_name p) nm) (products d) = filter ?sub (products d)"
    by (simp add: icontains_iff)
  from a have "filter ?sub (products d) \<noteq> []"
    by (auto simp: filter_empty_conv)
  with n f have "resolve_product d nm
      = Suggestions (map (\<lambda>p. (p_id p, p_name p)) (filter ?sub (products d)))"
    by (simp add: resolve_product_def)
  with assms show "PreOrderCreateView_create now u rq d
              = (NoExactMatch nm (map (\<lambda>p. (p_id p, p_name p)) (filter ?sub (products d))), d)"
    by (simp add: PreOrderCreateView_create_def Let_def)
next
  let ?sub = "\<lambda>p. \<exists>pre suf. upper (p_name p) = pre @ upper nm @ suf"
  assume a: "\<forall>p \<in> set (products d). \<not> ?sub p"
  have "upper (p_name p) \<noteq> upper nm" if "p \<in> set (products d)" for p
  proof
    assume "upper (p_name p) = upper nm"
    then have "upper (p_name p) = [] @ upper nm @ []" by simp
    with a that show False by blast
  qed
  then have n: "find (\<lambda>p. iexact (p_name p) nm) (products d) = None"
    by (auto simp: find_None_iff iexact_def)
  have "filter (\<lambda>p. icontains (p_name p) nm) (products d) = []"
    using a by (simp add: icontains_iff filter_empty_conv)
  with n have "resolve_product d nm = NoMatch"
    by (simp add: resolve_product_def)
  with assms show "PreOrderCreateView_create now u rq d = (NoProductsFound nm, d)"
    by (simp add: PreOrderCreateView_create_def Let_def)
qed


theorem product_resolution_trichotomy_witness:
  "PreOrderCreateView_create (at_time 100 17 0 0 0) cust
       (request ''Ban'' 1 ''MORNING'' ''1 Street'') db_ban
     = (NoExactMatch ''Ban'' [(2, ''Banana''), (3, ''Bandaid'')], db_ban) \<and>
   PreOrderCreateView_create (at_time 100 17 0 0 0) cust
       (request ''Kiwi'' 1 ''MORNING'' ''1 Street'') db_ban
     = (NoProductsFound ''Kiwi'', db_ban) \<and>
   (\<exists>p \<in> set (products db_ban). upper (p_name p) = upper ''banana'' \<and>
      PreOrderCreateView_create (at_time 100 17 0 0 0) cust
          (request '' banana '' 1 ''MORNING'' ''1 Street'') db_ban
        = create_with_product (at_time 100 17 0 0 0) cust p
            (request '' banana '' 1 ''MORNING'' ''1 Street'') db_ban)"
proof -
  let ?now = "at_time 100 17 0 0 0"
  let ?sub = "\<lambda>nm p. \<exists>pre suf. upper (p_name p) = pre @ upper nm @ suf"
  have au: "is_authenticated cust" by code_simp
  have n1: "''Ban'' = strip (str_or_empty (rq_product_name (request ''Ban'' 1 ''MORNING'' ''1 Street'')))"
    and n2: "''Kiwi'' = strip (str_or_empty (rq_product_name (request ''Kiwi'' 1 ''MORNING'' ''1 Street'')))"
    and n3: "''banana'' = strip (str_or_empty (rq_product_name (request '' banana '' 1 ''MORNING'' ''1 Street'')))"
    by code_simp+
  have ne: "''Ban'' \<noteq> []" "''Kiwi'' \<noteq> []" "''banana'' \<noteq> []" by simp_all
  have sub: "?sub nm p = icontains (p_name p) nm" for nm p
    by (simp add: icontains_iff)
  have h2a: "\<forall>p \<in> set (products db_ban). upper (p_name p) \<noteq> upper ''Ban''"
    by code_simp
  have h2b: "\<exists>p \<in> set (products db_ban). ?sub ''Ban'' p"
    unfolding sub by code_simp
  have h2c: "map (\<lambda>p. (p_id p, p_name p)) (filter (?sub ''Ban'') (products db_ban))
               = [(2, ''Banana''), (3, ''Bandaid'')]"
    unfolding sub by code_simp
  have h3: "\<forall>p \<in> set (products db_ban). \<not> ?sub ''Kiwi'' p"
    unfolding sub by code_simp
  have h1: "\<exists>p \<in> set (products db_ban). upper (p_name p) = upper ''banana''"
    by code_simp
  from product_resolution_trichotomy [OF au n1 ne(1), of db_ban ?now] h2a h2b h2c
  have r1: "PreOrderCreateView_create ?now cust (request ''Ban'' 1 ''MORNING'' ''1 Street'') db_ban
     = (NoExactMatch ''Ban'' [(2, ''Banana''), (3, ''Bandaid'')], db_ban)"
    by simp
  from product_resolution_trichotomy [OF au n2 ne(2), of db_ban ?now] h3
  have r2: "PreOrderCreateView_create ?now cust (request ''Kiwi'' 1 ''MORNING'' ''1 Street'') db_ban
     = (NoProductsFound ''Kiwi'', db_ban)"
    by blast
  from product_resolution_trichotomy [OF au n3 ne(3), of db_ban ?now] h1
  have r3: "\<exists>p \<in> set (products db_ban). upper (p_name p) = upper ''banana'' \<and>
      PreOrderCreateView_create ?now cust (request '' banana '' 1 ''MORNING'' ''1 Street'') db_ban
        = create_with_product ?now cust p (request '' banana '' 1 ''MORNING'' ''1 Street'') db_ban"
    by blast
  from r1 r2 r3 show ?thesis by blast
qed


section \<open>Slot names\<close>

lemma upper_lower_char: "upper_char (lower_char c) = upper_char c"
  by (auto simp: upper_char_def lower_char_def Let_def)

lemma isspace_lower_char: "isspace (lower_char c) = isspace c"
  by (auto simp: isspace_def lower_char_def Let_def)

lemma upper_lower: "upper (lower s) = upper s"
  by (simp add: upper_def lower_def upper_lower_char)

lemma case_variant_upper: "case_variant v n \<Longrightarrow> upper v = upper n"
  by (metis case_variant_def upper_lower)

lemma case_variant_spaces: "case_variant v n \<Longrightarrow> list_ex isspace v = list_ex isspace n"
proof -
  assume "case_variant v n"
  then have e: "map lower_char v = map lower_char n" by (simp add: case_variant_def lower_def)
  have "list_ex isspace s = list_ex isspace (map lower_char s)" for s
    by (induction s) (simp_all add: isspace_lower_char)
  with e show ?thesis by metis
qed

lemma valid_slots_cases: "n \<in> set valid_slots \<Longrightarrow> n = ''MORNING'' \<or> n = ''AFTERNOON'' \<or> n = ''EVENING''"
  by (auto simp: valid_slots_def SLOT_CHOICES_def)

lemma valid_slot_upper: "n \<in> set valid_slots \<Longrightarrow> upper n = n"
  by (auto dest!: valid_slots_cases simp: upper_def upper_char_def)

lemma valid_slot_no_space: "n \<in> set valid_slots \<Longrightarrow> \<not> list_ex isspace n"
  by (auto dest!: valid_slots_cases simp: isspace_def)

lemma valid_slot_nonempty: "n \<in> set valid_slots \<Longrightarrow> n \<noteq> []"
  by (auto dest!: valid_slots_cases)

lemma dropWhile_all: "\<forall>x \<in> set xs. P x \<Longrightarrow> dropWhile P xs = []"
  by (induction xs) auto

lemma dropWhile_none: "\<forall>x \<in> set xs. \<not> P x \<Longrightarrow> dropWhile P xs = xs"
  by (cases xs) auto

lemma strip_padded:
  assumes "list_all isspace l" "list_all isspace r" "\<not> list_ex isspace v"
  shows "strip (l @ v @ r) = v"
proof -
  have l: "\<forall>x \<in> set l. isspace x" and r: "\<forall>x \<in> set r. isspace x"
    using assms(1,2) by (simp_all add: list_all_iff)
  have nv: "\<forall>x \<in> set v. \<not> isspace x"
    using assms(3) by (simp add: list_ex_iff)
  have a: "dropWhile isspace (l @ v @ r) = dropWhile isspace (v @ r)"
    using l by (intro dropWhile_append2) simp
  show ?thesis
  proof (cases v)
    case Nil
    from dropWhile_all [OF r] have "dropWhile isspace r = []" .
    with a Nil have "dropWhile isspace (l @ v @ r) = []" by simp
    with Nil show ?thesis by (simp only: strip_def rev.simps dropWhile.simps)
  next
    case (Cons c cs)
    with nv have "dropWhile isspace (v @ r) = v @ r" by simp
    with a have "rev (dropWhile isspace (l @ v @ r)) = rev r @ rev v" by simp
    moreover have "dropWhile isspace (rev r @ rev v) = dropWhile isspace (rev v)"
      using r by (intro dropWhile_append2) simp
    moreover have "dropWhile isspace (rev v) = rev v"
      using nv by (intro dropWhile_none) simp
    ultimately show ?thesis by (simp add: strip_def)
  qed
qed

lemma normalise_variant:
  assumes "n \<in> set valid_slots" "case_variant v n" "padded raw v"
  shows "upper (strip raw) = n" and "raw \<noteq> []"
proof -
  from assms(3) obtain l r where raw: "raw = l @ v @ r"
    and lr: "list_all isspace l" "list_all isspace r"
    by (auto simp: padded_def)
  have ns: "\<not> list_ex isspace v"
    using case_variant_spaces [OF assms(2)] valid_slot_no_space [OF assms(1)] by simp
  from strip_padded [OF lr ns] raw have "strip raw = v" by simp
  with case_variant_upper [OF assms(2)] valid_slot_upper [OF assms(1)]
  show "upper (strip raw) = n" by simp
  from assms(2) valid_slot_nonempty [OF assms(1)] have "v \<noteq> []"
    by (auto simp: case_variant_def lower_def)
  with raw show "raw \<noteq> []" by simp
qed

lemma lookup_variant:
  assumes "slots_seeded d" "n \<in> set valid_slots" "case_variant v n" "padded raw v"
  shows "\<exists>s \<in> set (slots d). ds_name s = n \<and> lookup_slot d raw = Some s"
proof -
  from assms(1,2) have "\<exists>s \<in> set (slots d). ds_name s = n"
    by (simp add: slots_seeded_def)
  from find_first_match [OF this] normalise_variant(1) [OF assms(2-4)]
  show ?thesis by (simp add: lookup_slot_def Let_def)
qed

lemma lookup_slot_None:
  "lookup_slot d raw = None \<longleftrightarrow> (\<forall>s \<in> set (slots d). ds_name s \<noteq> upper (strip raw))"
  by (auto simp: lookup_slot_def Let_def find_None_iff)

lemma check_address_not_InvalidSlot: "check_address a = Some err \<Longrightarrow> err \<noteq> InvalidSlot vs"
  by (auto simp: check_address_def split: if_splits)

lemma reserve_not_InvalidSlot: "fst (reserve now u p qty slot address d) \<noteq> InvalidSlot vs"
  by (auto simp: reserve_def Let_def split: option.splits)

lemma create_with_product_InvalidSlot:
  "create_with_product now u p rq d = (InvalidSlot vs, d') \<Longrightarrow>
   lookup_slot d (str_or_empty (rq_slot rq)) = None \<and> vs = valid_slots \<and> d' = d"
  using reserve_not_InvalidSlot [of now u p _ _ _ d vs]
  by (auto simp: create_with_product_def Let_def split: option.splits if_splits
      dest: check_address_not_InvalidSlot) (metis fst_conv)+

lemma create_InvalidSlot:
  "PreOrderCreateView_create now u rq d = (InvalidSlot vs, d') \<Longrightarrow>
   lookup_slot d (str_or_empty (rq_slot rq)) = None \<and> vs = valid_slots \<and> d' = d"
  by (auto simp: PreOrderCreateView_create_def Let_def split: resolution.splits if_splits
      dest: create_with_product_InvalidSlot)

lemma list_InvalidSlot:
  "OrderListBySlotView_list sp d = InvalidSlot vs \<Longrightarrow>
   \<exists>raw. sp = Some raw \<and> lookup_slot d raw = None \<and> vs = valid_slots"
  by (auto simp: OrderListBySlotView_list_def Let_def split: option.splits if_splits)

lemma lookup_slot_cong:
  "upper (strip a) = upper (strip b) \<Longrightarrow> lookup_slot d a = lookup_slot d b"
  by (simp add: lookup_slot_def)

lemma create_with_product_slot_cong:
  assumes "upper (strip a) = upper (strip b)"
  shows "create_with_product now u p (rq\<lparr>rq_slot := Some a\<rparr>) d
           = create_with_product now u p (rq\<lparr>rq_slot := Some b\<rparr>) d"
proof -
  have "lookup_slot d (str_or_empty (Some a)) = lookup_slot d (str_or_empty (Some b))"
    using assms by (simp add: str_or_empty_def lookup_slot_def)
  then show ?thesis
    by (simp add: create_with_product_def split: option.splits)
qed

lemma create_slot_cong:
  assumes "upper (strip a) = upper (strip b)"
  shows "PreOrderCreateView_create now u (rq\<lparr>rq_slot := Some a\<rparr>) d
           = PreOrderCreateView_create now u (rq\<lparr>rq_slot := Some b\<rparr>) d"
  by (simp add: PreOrderCreateView_create_def Let_def
      create_with_product_slot_cong [OF assms] split: resolution.splits)

lemma list_slot_cong:
  assumes "upper (strip a) = upper (strip b)" "a \<noteq> []" "b \<noteq> []"
  shows "OrderListBySlotView_list (Some a) d = OrderListBySlotView_list (Some b) d"
proof -
  have "lookup_slot d a = lookup_slot d b"
    using assms(1) by (simp add: lookup_slot_def)
  with assms(2,3) show ?thesis
    by (simp add: OrderListBySlotView_list_def split: option.splits)
qed

lemma variant_create_accepted:
  assumes "slots_seeded d" "n \<in> set valid_slots" "case_variant v n" "padded raw v"
  shows "fst (PreOrderCreateView_create now u (rq\<lparr>rq_slot := Some raw\<rparr>) d) \<noteq> InvalidSlot vs"
proof
  from lookup_variant [OF assms] obtain s where s: "lookup_slot d raw = Some s" by blast
  assume "fst (PreOrderCreateView_create now u (rq\<lparr>rq_slot := Some raw\<rparr>) d) = InvalidSlot vs"
  then have "PreOrderCreateView_create now u (rq\<lparr>rq_slot := Some raw\<rparr>) d
      = (InvalidSlot vs, snd (PreOrderCreateView_create now u (rq\<lparr>rq_slot := Some raw\<rparr>) d))"
    by (metis prod.collapse)
  from create_InvalidSlot [OF this] s show False
    by (simp add: str_or_empty_def)
qed

lemma variant_list_accepted:
  assumes "slots_seeded d" "n \<in> set valid_slots" "case_variant v n" "padded raw v"
  shows "OrderListBySlotView_list (Some raw) d \<noteq> InvalidSlot vs"
    and "OrderListBySlotView_list (Some raw) d \<noteq> SlotRequired"
proof -
  from lookup_variant [OF assms] obtain s where s: "lookup_slot d raw = Some s" by blast
  show "OrderListBySlotView_list (Some raw) d \<noteq> InvalidSlot vs"
  proof
    assume "OrderListBySlotView_list (Some raw) d = InvalidSlot vs"
    from list_InvalidSlot [OF this] s show False by simp
  qed
  from normalise_variant(2) [OF assms(2-4)] s
  show "OrderListBySlotView_list (Some raw) d \<noteq> SlotRequired"
    by (simp add: OrderListBySlotView_list_def Let_def)
qed

lemma valid_slots_eq: "valid_slots = [''MORNING'', ''AFTERNOON'', ''EVENING'']"
  by (simp add: valid_slots_def SLOT_CHOICES_def)

text \<open>
  Claim C10. Both views look the slot up under the trimmed, upper-cased input, so two
  inputs with the same normal form get the same answer (for the list view: two
  non-empty inputs). When the three slots are stored, every case variant of one of
  their names, with or without surrounding blanks, finds its slot: neither view answers
  with the invalid-slot error, and the list view does not ask for the parameter.
  The invalid-slot error names MORNING, AFTERNOON and EVENING, changes nothing, and is
  given only when no stored slot has the normalised input as its name.
\<close>

theorem slot_normalised_before_validation:
  "(upper (strip a) = upper (strip b) \<longrightarrow>
      PreOrderCreateView_create now u (rq\<lparr>rq_slot := Some a\<rparr>) d
        = PreOrderCreateView_create now u (rq\<lparr>rq_slot := Some b\<rparr>) d \<and>
      (a \<noteq> [] \<and> b \<noteq> [] \<longrightarrow>
         OrderListBySlotView_list (Some a) d = OrderListBySlotView_list (Some b) d)) \<and>
   (slots_seeded d \<and> n \<in> set valid_slots \<and> case_variant v n \<and> padded raw v \<longrightarrow>
      (\<exists>s \<in> set (slots d). ds_name s = n \<and> lookup_slot d raw = Some s) \<and>
      (\<forall>vs. fst (PreOrderCreateView_create now u (rq\<lparr>rq_slot := Some raw\<rparr>) d)
              \<noteq> InvalidSlot vs) \<and>
      (\<forall>vs. OrderListBySlotView_list (Some raw) d \<noteq> InvalidSlot vs) \<and>
      OrderListBySlotView_list (Some raw) d \<noteq> SlotRequired) \<and>
   (PreOrderCreateView_create now u rq d = (InvalidSlot vs, d') \<longrightarrow>
      vs = [''MORNING'', ''AFTERNOON'', ''EVENING''] \<and> d' = d \<and>
      (\<forall>s \<in> set (slots d). ds_name s \<noteq> upper (strip (str_or_empty (rq_slot rq))))) \<and>
   (OrderListBySlotView_list sp d = InvalidSlot vs \<longrightarrow>
      vs = [''MORNING'', ''AFTERNOON'', ''EVENING''] \<and>
      (\<exists>raw. sp = Some raw \<and> (\<forall>s \<in> set (slots d). ds_name s \<noteq> upper (strip raw))))"
proof -
  have p1: "PreOrderCreateView_create now u (rq\<lparr>rq_slot := Some a\<rparr>) d
        = PreOrderCreateView_create now u (rq\<lparr>rq_slot := Some b\<rparr>) d \<and>
      (a \<noteq> [] \<and> b \<noteq> [] \<longrightarrow>
         OrderListBySlotView_list (Some a) d = OrderListBySlotView_list (Some b) d)"
    if h: "upper (strip a) = upper (strip b)"
  proof (intro conjI impI)
    show "PreOrderCreateView_create now u (rq\<lparr>rq_slot := Some a\<rparr>) d
        = PreOrderCreateView_create now u (rq\<lparr>rq_slot := Some b\<rparr>) d"
      by (rule create_slot_cong [OF h])
    assume "a \<noteq> [] \<and> b \<noteq> []"
    then have "a \<noteq> []" "b \<noteq> []" by simp_all
    then show "OrderListBySlotView_list (Some a) d = OrderListBySlotView_list (Some b) d"
      by (rule list_slot_cong [OF h])
  qed
  have p2: "(\<exists>s \<in> set (slots d). ds_name s = n \<and> lookup_slot d raw = Some s) \<and>
      (\<forall>vs. fst (PreOrderCreateView_create now u (rq\<lparr>rq_slot := Some raw\<rparr>) d)
              \<noteq> InvalidSlot vs) \<and>
      (\<forall>vs. OrderListBySlotView_list (Some raw) d \<noteq> InvalidSlot vs) \<and>
      OrderListBySlotView_list (Some raw) d \<noteq> SlotRequired"
    if h: "slots_seeded d \<and> n \<in> set valid_slots \<and> case_variant v n \<and> padded raw v"
  proof -
    from h have h1: "slots_seeded d" and h2: "n \<in> set valid_slots"
      and h3: "case_variant v n" and h4: "padded raw v"
      by simp_all
    show ?thesis
    proof (intro conjI allI)
      show "\<exists>s \<in> set (slots d). ds_name s = n \<and> lookup_slot d raw = Some s"
        by (rule lookup_variant [OF h1 h2 h3 h4])
      show "fst (PreOrderCreateView_create now u (rq\<lparr>rq_slot := Some raw\<rparr>) d)
              \<noteq> InvalidSlot vs" for vs
        by (rule variant_create_accepted [OF h1 h2 h3 h4])
      show "OrderListBySlotView_list (Some raw) d \<noteq> InvalidSlot vs" for vs
        by (rule variant_list_accepted(1) [OF h1 h2 h3 h4])
      show "OrderListBySlotView_list (Some raw) d \<noteq> SlotRequired"
        by (rule variant_list_accepted(2) [OF h1 h2 h3 h4])
    qed
  qed
  have p3: "vs = [''MORNING'', ''AFTERNOON'', ''EVENING''] \<and> d' = d \<and>
      (\<forall>s \<in> set (slots d). ds_name s \<noteq> upper (strip (str_or_empty (rq_slot rq))))"
    if c: "PreOrderCreateView_create now u rq d = (InvalidSlot vs, d')"
    using create_InvalidSlot [OF c] by (simp add: lookup_slot_None valid_slots_eq)
  have p4: "vs = [''MORNING'', ''AFTERNOON'', ''EVENING''] \<and>
      (\<exists>raw. sp = Some raw \<and> (\<forall>s \<in> set (slots d). ds_name s \<noteq> upper (strip raw)))"
    if c: "OrderListBySlotView_list sp d = InvalidSlot vs"
  proof -
    from list_InvalidSlot [OF c] obtain raw where
      "sp = Some raw" "lookup_slot d raw = None" "vs = valid_slots" by blast
    then show ?thesis by (simp add: lookup_slot_None valid_slots_eq)
  qed
  show ?thesis
  proof (rule conjI [OF _ conjI [OF _ conjI]])
  qed (rule impI, erule p1 p2 p3 p4)+
qed

theorem slot_normalised_before_validation_witness:
  "slots_seeded db0 \<and> ''EVENING'' \<in> set valid_slots \<and>
   case_variant ''Evening'' ''EVENING'' \<and> padded '' Evening '' ''Evening'' \<and>
   lookup_slot db0 '' Evening '' = Some \<lparr>ds_id = 3, ds_name = ''EVENING''\<rparr> \<and>
   OrderListBySlotView_list (Some '' Evening '') db0 = NoOrdersFound ''EVENING'' \<and>
   OrderListBySlotView_list (Some '' Evening '') db0 \<noteq> SlotRequired \<and>
   upper (strip ''morning'') = upper (strip ''MORNING'') \<and>
   PreOrderCreateView_create (at_time 100 17 0 0 0) cust
       ((request ''Apple'' 2 ''x'' ''123 Street'')\<lparr>rq_slot := Some ''morning''\<rparr>) db0
     = PreOrderCreateView_create (at_time 100 17 0 0 0) cust
         ((request ''Apple'' 2 ''x'' ''123 Street'')\<lparr>rq_slot := Some ''MORNING''\<rparr>) db0 \<and>
   PreOrderCreateView_create (at_time 100 17 0 0 0) cust
       (request ''Apple'' 2 ''night'' ''123 Street'') db0
     = (InvalidSlot [''MORNING'', ''AFTERNOON'', ''EVENING''], db0) \<and>
   list_all (\<lambda>s. ds_name s \<noteq> upper (strip (str_or_empty
                (rq_slot (request ''Apple'' 2 ''night'' ''123 Street''))))) (slots db0)"
proof -
  let ?now = "at_time 100 17 0 0 0"
  let ?rq = "request ''Apple'' 2 ''night'' ''123 Street''"
  let ?rx = "request ''Apple'' 2 ''x'' ''123 Street''"
  have a1: "slots_seeded db0"
    by code_simp
  have a2: "''EVENING'' \<in> set valid_slots"
    by code_simp
  have a3: "case_variant ''Evening'' ''EVENING''"
    by code_simp
  have "'' Evening '' = '' '' @ ''Evening'' @ '' '' \<and> list_all isspace '' '' \<and> list_all isspace '' ''"
    by code_simp
  then have a4: "padded '' Evening '' ''Evening''"
    unfolding padded_def by blast
  have c: "upper (strip ''morning'') = upper (strip ''MORNING'')"
    by code_simp
  have e: "PreOrderCreateView_create ?now cust ?rq db0
             = (InvalidSlot [''MORNING'', ''AFTERNOON'', ''EVENING''], db0)"
    by code_simp
  have l1: "lookup_slot db0 '' Evening '' = Some \<lparr>ds_id = 3, ds_name = ''EVENING''\<rparr>"
    by code_simp
  have l2: "OrderListBySlotView_list (Some '' Evening '') db0 = NoOrdersFound ''EVENING''"
    by code_simp
  note t = slot_normalised_before_validation
    [of "''morning''" "''MORNING''" ?now cust ?rx db0 "''EVENING''" "''Evening''"
      "'' Evening ''" "[''MORNING'', ''AFTERNOON'', ''EVENING'']" db0 None]
  from t c have r1: "PreOrderCreateView_create ?now cust (?rx\<lparr>rq_slot := Some ''morning''\<rparr>) db0
     = PreOrderCreateView_create ?now cust (?rx\<lparr>rq_slot := Some ''MORNING''\<rparr>) db0"
    by blast
  note t2 = slot_normalised_before_validation
    [of "''morning''" "''MORNING''" ?now cust ?rq db0 "''EVENING''" "''Evening''"
      "'' Evening ''" "[''MORNING'', ''AFTERNOON'', ''EVENING'']" db0 None]
  from t2 e have "\<forall>s \<in> set (slots db0).
       ds_name s \<noteq> upper (strip (str_or_empty (rq_slot ?rq)))"
    by blast
  then have r2: "list_all (\<lambda>s. ds_name s \<noteq> upper (strip (str_or_empty (rq_slot ?rq))))
      (slots db0)"
    by (simp add: list_all_iff)
  from t a1 a2 a3 a4
  have r3: "OrderListBySlotView_list (Some '' Evening '') db0 \<noteq> SlotRequired"
    by blast
  from a1 a2 a3 a4 c l1 l2 r1 r2 r3 e show ?thesis by blast
qed


section \<open>The report\<close>

text \<open>
  Claim C8 as stated fails: the view lists orders, it does not add up quantities per
  product. Two apple orders of 3 and 2 give two rows where the claim has one pair with
  total 5, whether the range is read as swapped (1 to 10) or as given (10 to 1).
\<close>

theorem top_products_not_aggregated:
  "report_pairs (TopProductsReportView_get (Some 10) (Some 1) db_report)
     = [(''Banana'', 4), (''Apple'', 3), (''Apple'', 2)] \<and>
   TopProducts_spec 1 10 db_report = [(''Apple'', 5), (''Banana'', 4)] \<and>
   report_pairs (TopProductsReportView_get (Some 10) (Some 1) db_report)
     \<noteq> TopProducts_spec 1 10 db_report \<and>
   report_pairs (TopProductsReportView_get (Some 10) (Some 1) db_report)
     \<noteq> TopProducts_spec 10 1 db_report"
  by code_simp

text \<open>
  When the first date is not after the second, no swap takes place, \<^verbatim>\<open>qs\<close> is never
  assigned and the \<^verbatim>\<open>return\<close> raises.
\<close>

lemma top_products_unbound_local:
  "start_date \<le> end_date \<Longrightarrow>
   TopProductsReportView_get (Some start_date) (Some end_date) d = Unhandled UnboundLocalError"
  by (simp add: TopProductsReportView_get_def)

lemma report_rows_keys:
  "\<forall>r \<in> set os. \<exists>p \<in> set (products d). p_id p = po_product r \<Longrightarrow>
   map (\<lambda>r. (r_id r, r_quantity r)) (report_rows d os) = map (\<lambda>r. (po_id r, po_quantity r)) os"
proof (induction os)
  case Nil
  then show ?case by (simp add: report_rows_def)
next
  case (Cons x xs)
  then have "\<exists>p \<in> set (products d). p_id p = po_product x" by simp
  from find_first_match [OF this] obtain p where
    "find (\<lambda>p. p_id p = po_product x) (products d) = Some p" by blast
  with Cons show ?case by (simp add: report_rows_def)
qed

text \<open>
  Claim C8, amended. When the start date is after the end date, the view answers with
  one row for each active order (with a known product) delivered between the end date
  and the start date, carrying that order's own quantity, by falling quantity. When
  every order's product is in the catalogue the rows are exactly these orders.
\<close>

theorem top_products_lists_orders:
  assumes "end_date < start_date"
  shows "\<exists>rows. TopProductsReportView_get (Some start_date) (Some end_date) d = Report rows \<and>
           mset rows = mset (report_rows d (orders_in_range end_date start_date d)) \<and>
           sorted_wrt (\<lambda>a b. r_quantity b \<le> r_quantity a) rows \<and>
           ((\<forall>r \<in> set (orders d). \<exists>p \<in> set (products d). p_id p = po_product r) \<longrightarrow>
              mset (map (\<lambda>r. (r_id r, r_quantity r)) rows)
                = mset (map (\<lambda>r. (po_id r, po_quantity r))
                     (filter (\<lambda>r. end_date \<le> po_delivery_date r \<and>
                                  po_delivery_date r \<le> start_date \<and>
                                  \<not> po_is_cancelled r) (orders d))))"
proof -
  let ?os = "orders_in_range end_date start_date d"
  let ?rows = "report_query end_date start_date d"
  have g: "TopProductsReportView_get (Some start_date) (Some end_date) d = Report ?rows"
    using assms by (simp add: TopProductsReportView_get_def)
  have m: "mset ?rows = mset (report_rows d ?os)"
    by (simp add: report_query_def)
  have "sorted (map (\<lambda>r. - r_quantity r) ?rows)"
    by (simp add: report_query_def)
  then have s: "sorted_wrt (\<lambda>a b. r_quantity b \<le> r_quantity a) ?rows"
    by (simp add: sorted_map)
  have k: "mset (map (\<lambda>r. (r_id r, r_quantity r)) ?rows)
             = mset (map (\<lambda>r. (po_id r, po_quantity r)) ?os)"
    if fk: "\<forall>r \<in> set (orders d). \<exists>p \<in> set (products d). p_id p = po_product r"
  proof -
    from fk have "\<forall>r \<in> set ?os. \<exists>p \<in> set (products d). p_id p = po_product r"
      by (simp add: orders_in_range_def)
    from report_rows_keys [OF this]
    have "mset (map (\<lambda>r. (r_id r, r_quantity r)) (report_rows d ?os))
            = mset (map (\<lambda>r. (po_id r, po_quantity r)) ?os)"
      by simp
    moreover have "mset (map (\<lambda>r. (r_id r, r_quantity r)) ?rows)
            = mset (map (\<lambda>r. (r_id r, r_quantity r)) (report_rows d ?os))"
      using m by (metis mset_map)
    ultimately show ?thesis by simp
  qed
  from g m s k show ?thesis
    unfolding orders_in_range_def by blast
qed

theorem top_products_lists_orders_witness:
  "(1::date) < 10 \<and>
   list_all (\<lambda>r. \<exists>p \<in> set (products db_report). p_id p = po_product r)
     (orders db_report) \<and>
   TopProductsReportView_get (Some 10) (Some 1) db_report
     = Report [\<lparr>r_id = 3, r_user = 2, r_product_name = ''Banana'', r_quantity = 4,
                  r_delivery_date = 6\<rparr>,
               \<lparr>r_id = 2, r_user = 2, r_product_name = ''Apple'', r_quantity = 3,
                  r_delivery_date = 6\<rparr>,
               \<lparr>r_id = 1, r_user = 2, r_product_name = ''Apple'', r_quantity = 2,
                  r_delivery_date = 5\<rparr>] \<and>
   (\<exists>rows. TopProductsReportView_get (Some 10) (Some 1) db_report = Report rows \<and>
      sorted_wrt (\<lambda>a b. r_quantity b \<le> r_quantity a) rows \<and>
      mset (map (\<lambda>r. (r_id r, r_quantity r)) rows) = mset [(1, 2), (2, 3), (3, 4)])"
proof -
  have a: "(1::date) < 10" by simp
  have fk: "\<forall>r \<in> set (orders db_report). \<exists>p \<in> set (products db_report). p_id p = po_product r"
    by code_simp
  have g: "TopProductsReportView_get (Some 10) (Some 1) db_report
     = Report [\<lparr>r_id = 3, r_user = 2, r_product_name = ''Banana'', r_quantity = 4,
                  r_delivery_date = 6\<rparr>,
               \<lparr>r_id = 2, r_user = 2, r_product_name = ''Apple'', r_quantity = 3,
                  r_delivery_date = 6\<rparr>,
               \<lparr>r_id = 1, r_user = 2, r_product_name = ''Apple'', r_quantity = 2,
                  r_delivery_date = 5\<rparr>]"
    by code_simp
  have f: "map (\<lambda>r. (po_id r, po_quantity r))
             (filter (\<lambda>r. 1 \<le> po_delivery_date r \<and> po_delivery_date r \<le> 10 \<and>
                          \<not> po_is_cancelled r) (orders db_report))
           = [(1, 2), (2, 3), (3, 4)]"
    by code_simp
  from top_products_lists_orders [OF a, of db_report] obtain rows where
    r: "TopProductsReportView_get (Some 10) (Some 1) db_report = Report rows"
      "sorted_wrt (\<lambda>a b. r_quantity b \<le> r_quantity a) rows"
      "(\<forall>r \<in> set (orders db_report). \<exists>p \<in> set (products db_report). p_id p = po_product r) \<longrightarrow>
         mset (map (\<lambda>r. (r_id r, r_quantity r)) rows)
           = mset (map (\<lambda>r. (po_id r, po_quantity r))
                (filter (\<lambda>r. 1 \<le> po_delivery_date r \<and> po_delivery_date r \<le> 10 \<and>
                             \<not> po_is_cancelled r) (orders db_report)))"
    by blast
  from r(3) fk f have "mset (map (\<lambda>r. (r_id r, r_quantity r)) rows) = mset [(1, 2), (2, 3), (3, 4)]"
    by simp
  with r(1,2) have "\<exists>rows. TopProductsReportView_get (Some 10) (Some 1) db_report = Report rows \<and>
      sorted_wrt (\<lambda>a b. r_quantity b \<le> r_quantity a) rows \<and>
      mset (map (\<lambda>r. (r_id r, r_quantity r)) rows) = mset [(1, 2), (2, 3), (3, 4)]"
    by blast
  moreover from fk
  have "list_all (\<lambda>r. \<exists>p \<in> set (products db_report). p_id p = po_product r)
          (orders db_report)"
    by (simp add: list_all_iff)
  ultimately show ?thesis using a g by blast
qed


section \<open>Two placements of 6 from a stock of 10\<close>

text \<open>
  One after the other: the first placement is created and leaves 4, the second is
  refused for insufficient stock.
\<close>

lemma six_and_six_in_sequence:
  "stock (snd (PreOrderCreateView_create (at_time 100 17 0 0 0) cust
                 (request ''Apple'' 6 ''MORNING'' ''123 Street'') db0))
     = [\<lparr>sb_id = 1, sb_product = 1, sb_quantity = 4\<rparr>,
        \<lparr>sb_id = 2, sb_product = 2, sb_quantity = 5\<rparr>] \<and>
   fst (PreOrderCreateView_create (at_time 100 17 0 0 0) other_cust
          (request ''Apple'' 6 ''MORNING'' ''456 Street'')
          (snd (PreOrderCreateView_create (at_time 100 17 0 0 0) cust
                  (request ''Apple'' 6 ''MORNING'' ''123 Street'') db0)))
     = InsufficientStock ''Apple'' 4"
  by code_simp

text \<open>The two steps, run on the same database, are the view.\<close>

lemma split_is_reserve:
  "reserve now u p qty slot address d =
     (case reserve_read p d of
        None \<Rightarrow> (StockNotFound, d)
      | Some stk \<Rightarrow> reserve_write now u p qty slot address stk d)"
  by (simp add: reserve_def reserve_read_def reserve_write_def split: option.splits)

lemma split_is_create_with_product:
  "create_with_product now u p rq d =
     create_commit now u
       (case rq_quantity rq of
          None \<Rightarrow> Refused QuantityNotNumber
        | Some qty \<Rightarrow>
            if qty \<le> 0 then Refused QuantityNotPositive
            else (case lookup_slot d (str_or_empty (rq_slot rq)) of
                    None \<Rightarrow> Refused (InvalidSlot valid_slots)
                  | Some slot \<Rightarrow>
                      (let address = strip (str_or_empty (rq_delivery_address rq))
                       in case check_address address of
                            Some err \<Rightarrow> Refused err
                          | None \<Rightarrow>
                              (case reserve_read p d of
                                 None \<Rightarrow> Refused StockNotFound
                               | Some stk \<Rightarrow> Checked p qty slot address stk)))) d"
  by (simp add: create_with_product_def create_commit_def split_is_reserve Let_def
      split: option.splits)

lemma split_is_create:
  "PreOrderCreateView_create now u rq d = create_commit now u (create_validate u rq d) d"
  by (simp add: PreOrderCreateView_create_def create_validate_def split_is_create_with_product
      Let_def create_commit_def split: resolution.splits)

text \<open>
  Two overlapping placements for the same product that have read the same stock row and
  each fit it are both created; the row ends at the read quantity less the second
  request's quantity, whatever the first request took.
\<close>

lemma race_general:
  assumes "create_validate u1 rq1 d = Checked p q1 slot1 a1 stk"
    and "create_validate u2 rq2 d = Checked p q2 slot2 a2 stk"
    and "q1 \<le> sb_quantity stk" and "q2 \<le> sb_quantity stk"
  shows "\<exists>o1 o2 d'. overlapping_creates now u1 rq1 u2 rq2 d = (Created o1, Created o2, d') \<and>
           po_quantity o1 = q1 \<and> po_quantity o2 = q2 \<and>
           orders d' = orders d @ [o1, o2] \<and>
           stock d' = map (\<lambda>r. if sb_id r = sb_id stk
                                then stk\<lparr>sb_quantity := sb_quantity stk - q2\<rparr> else r) (stock d)"
  using assms
  by (simp add: overlapping_creates_def create_commit_def reserve_write_def Let_def
      comp_def cong: if_cong)

text \<open>
  Claim C9. The claim fails on the view: with 10 apples in stock, two overlapping
  placements of 6 each read the quantity 10, both pass the check of line 208, both
  orders are created, and the stock ends at 4. Twelve apples are sold from ten, and
  neither request gets the insufficient-stock error.
\<close>

theorem overlapping_six_and_six_oversell:
  "reserve_read apple db0 = Some \<lparr>sb_id = 1, sb_product = 1, sb_quantity = 10\<rparr> \<and>
   overlapping_creates (at_time 100 17 0 0 0)
       cust (request ''Apple'' 6 ''MORNING'' ''123 Street'')
       other_cust (request ''Apple'' 6 ''MORNING'' ''456 Street'') db0
     = (Created \<lparr>po_id = 1, po_user = 2, po_product = 1, po_slot = 1, po_quantity = 6,
                 po_delivery_date = 101, po_delivery_address = ''123 Street'',
                 po_is_cancelled = False\<rparr>,
        Created \<lparr>po_id = 2, po_user = 3, po_product = 1, po_slot = 1, po_quantity = 6,
                 po_delivery_date = 101, po_delivery_address = ''456 Street'',
                 po_is_cancelled = False\<rparr>,
        db0\<lparr>stock := [\<lparr>sb_id = 1, sb_product = 1, sb_quantity = 4\<rparr>,
                       \<lparr>sb_id = 2, sb_product = 2, sb_quantity = 5\<rparr>],
            orders := [\<lparr>po_id = 1, po_user = 2, po_product = 1, po_slot = 1, po_quantity = 6,
                         po_delivery_date = 101, po_delivery_address = ''123 Street'',
                         po_is_cancelled = False\<rparr>,
                       \<lparr>po_id = 2, po_user = 3, po_product = 1, po_slot = 1, po_quantity = 6,
                         po_delivery_date = 101, po_delivery_address = ''456 Street'',
                         po_is_cancelled = False\<rparr>]\<rparr>)"
  by code_simp

end
